theory Spec2Isabelle
  imports Complex_Main "HOL-Library.AList"
begin

section \<open>Cache.js: the asset prefetch-and-cache pipeline\<close>

text \<open>
  A shallow embedding of \<^verbatim>\<open>Cache.js\<close>. The two durable stores of the page (the IndexedDB
  object store \<^verbatim>\<open>xr_asset_meta\<close> and the Cache Storage of the origin) are the state; what
  the platform answers at each asynchronous call (a rejected IndexedDB request, the response
  of \<^verbatim>\<open>fetch\<close>, the chunks of a body stream, the value of \<^verbatim>\<open>Date.now()\<close>) is a parameter
  of the function that makes the call, and so is what each callback of \<^verbatim>\<open>prefetchAssets\<close>
  does when it is invoked: it returns or it throws. Each invocation is recorded, in order,
  in an event list, together with every network request issued.
\<close>

subsection \<open>Data\<close>

text \<open>A thrown or rejected value, taken to be an object; the code only reads its
  \<^verbatim>\<open>message\<close>.\<close>

datatype error = Error (message: string)

text \<open>
  The object kept in the object store (\<^verbatim>\<open>keyPath: 'url'\<close>): the \<^verbatim>\<open>data\<close> object built by
  \<^verbatim>\<open>saveAssetMeta\<close>. A header that is absent reads as \<^verbatim>\<open>null\<close>, here \<open>None\<close>.
\<close>

record asset_meta =
  meta_url :: string
  meta_size :: nat
  meta_contentType :: "string option"
  meta_etag :: "string option"
  meta_lastModified :: "string option"
  meta_timestamp :: nat

text \<open>
  The \<^verbatim>\<open>meta\<close> argument of \<^verbatim>\<open>saveAssetMeta\<close>, an object that is spread into \<^verbatim>\<open>data\<close>.
  Besides the four keys that \<^verbatim>\<open>prefetchAssets\<close> passes, a caller's object may carry a
  \<^verbatim>\<open>url\<close> or a \<^verbatim>\<open>timestamp\<close> key of its own; \<open>None\<close> is a key that is not there.
\<close>

record meta_arg =
  arg_url :: "string option"
  arg_size :: nat
  arg_contentType :: "string option"
  arg_etag :: "string option"
  arg_lastModified :: "string option"
  arg_timestamp :: "nat option"

text \<open>An element of \<^verbatim>\<open>assetList\<close>.\<close>

record asset =
  asset_url :: string
  asset_name :: string

text \<open>
  A response of \<^verbatim>\<open>fetch\<close>. The body is \<^verbatim>\<open>null\<close>, or a stream that delivers its chunks
  and then either ends (\<^verbatim>\<open>done\<close>) or makes \<^verbatim>\<open>reader.read()\<close> reject.
\<close>

type_synonym chunk = "nat list"

datatype body = NullBody | Stream "chunk list" "error option"

record response =
  status :: nat
  statusText :: string
  hdr_contentLength :: "string option"
  hdr_contentType :: "string option"
  hdr_etag :: "string option"
  hdr_lastModified :: "string option"
  resp_body :: body

datatype fetch_result = NetworkFail error | Responded response

text \<open>
  The state: the records of the object store, in the order the store returns them, and the
  Cache Storage, a list of named caches, each a list of (request URL, response) entries.
\<close>

record state =
  metaStore :: "asset_meta list"
  cacheStorage :: "(string \<times> (string \<times> response) list) list"

text \<open>What the platform does at the two steps of an IndexedDB operation.\<close>

record idb_io =
  open_error :: "error option"
  request_error :: "error option"

subsection \<open>The metadata store\<close>

text \<open>\<^verbatim>\<open>openDB\<close>: the promise rejects with \<^verbatim>\<open>request.error\<close> or resolves with the connection.\<close>

definition openDB :: "idb_io \<Rightarrow> error + unit" where
  "openDB io = (case open_error io of Some e \<Rightarrow> Inl e | None \<Rightarrow> Inr ())"

text \<open>\<^verbatim>\<open>store.put(data)\<close> with in-line keys: the record with the key of \<open>d\<close> is replaced, or
  \<open>d\<close> is added.\<close>

fun store_put :: "asset_meta \<Rightarrow> asset_meta list \<Rightarrow> asset_meta list" where
  "store_put d [] = [d]"
| "store_put d (r # rs) = (if meta_url r = meta_url d then d # rs else r # store_put d rs)"

text \<open>\<^verbatim>\<open>store.get(url)\<close>: the record with that key, \<^verbatim>\<open>undefined\<close> (\<open>None\<close>) when there is none.\<close>

definition store_get :: "string \<Rightarrow> asset_meta list \<Rightarrow> asset_meta option" where
  "store_get u rs = find (\<lambda>r. meta_url r = u) rs"

text \<open>
  \<^verbatim>\<open>saveAssetMeta(url, meta)\<close>, with \<open>now\<close> the value of \<^verbatim>\<open>Date.now()\<close>. In
  \<^verbatim>\<open>{ url, ...meta, timestamp: Date.now() }\<close> a later key wins: a \<^verbatim>\<open>url\<close> key of \<^verbatim>\<open>meta\<close>
  replaces the parameter, and \<^verbatim>\<open>timestamp\<close> is always the current time.
\<close>

definition saveAssetMeta ::
  "idb_io \<Rightarrow> nat \<Rightarrow> string \<Rightarrow> meta_arg \<Rightarrow> asset_meta list \<Rightarrow> error + asset_meta list" where
  "saveAssetMeta io now u meta store =
     (case openDB io of
        Inl e \<Rightarrow> Inl e
      | Inr db \<Rightarrow>
          (let data = \<lparr> meta_url = (case arg_url meta of Some u' \<Rightarrow> u' | None \<Rightarrow> u),
                        meta_size = arg_size meta,
                        meta_contentType = arg_contentType meta,
                        meta_etag = arg_etag meta,
                        meta_lastModified = arg_lastModified meta,
                        meta_timestamp = now \<rparr>
           in case request_error io of
                Some e \<Rightarrow> Inl e
              | None \<Rightarrow> Inr (store_put data store)))"

definition getAssetMeta :: "idb_io \<Rightarrow> string \<Rightarrow> asset_meta list \<Rightarrow> error + asset_meta option" where
  "getAssetMeta io u store =
     (case openDB io of
        Inl e \<Rightarrow> Inl e
      | Inr db \<Rightarrow> (case request_error io of Some e \<Rightarrow> Inl e | None \<Rightarrow> Inr (store_get u store)))"

definition getAllAssetMeta :: "idb_io \<Rightarrow> asset_meta list \<Rightarrow> error + asset_meta list" where
  "getAllAssetMeta io store =
     (case openDB io of
        Inl e \<Rightarrow> Inl e
      | Inr db \<Rightarrow> (case request_error io of Some e \<Rightarrow> Inl e | None \<Rightarrow> Inr store))"

definition clearAssetMeta :: "idb_io \<Rightarrow> asset_meta list \<Rightarrow> error + asset_meta list" where
  "clearAssetMeta io store =
     (case openDB io of
        Inl e \<Rightarrow> Inl e
      | Inr db \<Rightarrow> (case request_error io of Some e \<Rightarrow> Inl e | None \<Rightarrow> Inr []))"

subsection \<open>Cache statistics\<close>

record cache_info =
  ci_version :: string
  ci_files :: nat
  ci_totalSize :: nat
  ci_latestUpdate :: "nat option"
  ci_assets :: "asset_meta list"

text \<open>\<^verbatim>\<open>item.size || 0\<close>: a size of zero is falsy and gives the right operand.\<close>

definition size_or_zero :: "nat \<Rightarrow> nat" where
  "size_or_zero n = (if n = 0 then 0 else n)"

text \<open>\<^verbatim>\<open>Math.max(...xs)\<close>; \<open>None\<close> is the \<^verbatim>\<open>-Infinity\<close> of no argument at all. A list
  too long to be spread into an argument list is not modelled.\<close>

fun math_max :: "nat list \<Rightarrow> nat option" where
  "math_max [] = None"
| "math_max (x # xs) = Some (foldl max x xs)"

text \<open>\<^verbatim>\<open>getCacheInfo\<close>: \<open>None\<close> is the \<^verbatim>\<open>null\<close> returned from the \<^verbatim>\<open>catch\<close> block. The state
  is read, never written.\<close>

definition getCacheInfo :: "idb_io \<Rightarrow> state \<Rightarrow> cache_info option" where
  "getCacheInfo io s =
     (case getAllAssetMeta io (metaStore s) of
        Inl e \<Rightarrow> None
      | Inr meta \<Rightarrow>
          (let totalSize = foldl (\<lambda>sum item. sum + size_or_zero (meta_size item)) 0 meta;
               latestUpdate = (if length meta > 0 then math_max (map meta_timestamp meta) else None)
           in Some \<lparr> ci_version = ''xr-cache-v1'',
                     ci_files = length meta,
                     ci_totalSize = totalSize,
                     ci_latestUpdate = latestUpdate,
                     ci_assets = meta \<rparr>))"

subsection \<open>Strings and numbers of the platform\<close>

text \<open>The decimal digits of a number, as a template literal prints it: the digits are
  produced from the last one, in front of those already there.\<close>

fun decimal_digits :: "nat \<Rightarrow> string \<Rightarrow> string" where
  "decimal_digits n later =
     (if n < 10 then char_of (48 + n) # later
      else decimal_digits (n div 10) (char_of (48 + n mod 10) # later))"

declare decimal_digits.simps [simp del]

definition number_to_string :: "nat \<Rightarrow> string" where
  "number_to_string n = decimal_digits n []"

text \<open>
  \<^verbatim>\<open>parseInt(str, 10)\<close>: leading white space is skipped (a header value is a byte string, so
  tab, line feed, vertical tab, form feed, carriage return, space and no-break space), then
  an optional sign, then the longest run of decimal digits; no digit at all gives
  \<^verbatim>\<open>NaN\<close>, here \<open>None\<close>. The value is kept exact.
\<close>

definition is_js_space :: "char \<Rightarrow> bool" where
  "is_js_space c = (of_char c \<in> set [9, 10, 11, 12, 13, 32, 160 :: nat])"

definition is_digit :: "char \<Rightarrow> bool" where
  "is_digit c = (48 \<le> (of_char c :: nat) \<and> (of_char c :: nat) \<le> 57)"

definition digit_value :: "char \<Rightarrow> nat" where
  "digit_value c = of_char c - 48"

definition parseInt10 :: "string \<Rightarrow> int option" where
  "parseInt10 str =
     (let s = dropWhile is_js_space str;
          sign = (case s of c # cs \<Rightarrow> if c = CHR ''-'' then - 1 else 1 | [] \<Rightarrow> (1 :: int));
          s1 = (case s of c # cs \<Rightarrow> if c = CHR ''-'' \<or> c = CHR ''+'' then cs else s | [] \<Rightarrow> []);
          z = takeWhile is_digit s1
      in if z = [] then None
         else Some (sign * int (foldl (\<lambda>acc c. 10 * acc + digit_value c) 0 z)))"

text \<open>\<^verbatim>\<open>parseInt(response.headers.get('content-length') || '0', 10)\<close>: an absent header
  (\<^verbatim>\<open>null\<close>) and an empty one are falsy.\<close>

definition contentLength_of :: "response \<Rightarrow> int option" where
  "contentLength_of r =
     parseInt10 (case hdr_contentLength r of
                   None \<Rightarrow> ''0''
                 | Some h \<Rightarrow> if h = [] then ''0'' else h)"

text \<open>\<^verbatim>\<open>response.ok\<close>: the status is in the range 200 to 299.\<close>

definition ok :: "response \<Rightarrow> bool" where
  "ok r = (200 \<le> status r \<and> status r \<le> 299)"

subsection \<open>The Cache Storage\<close>

type_synonym cache_storage = "(string \<times> (string \<times> response) list) list"

definition cache_entries :: "string \<Rightarrow> cache_storage \<Rightarrow> (string \<times> response) list" where
  "cache_entries n cs = (case map_of cs n of None \<Rightarrow> [] | Some c \<Rightarrow> c)"

text \<open>\<^verbatim>\<open>caches.open(name)\<close> creates the cache when there is none of that name.\<close>

definition caches_open :: "string \<Rightarrow> cache_storage \<Rightarrow> cache_storage" where
  "caches_open n cs = AList.update n (cache_entries n cs) cs"

text \<open>\<^verbatim>\<open>cache.put(url, response)\<close> replaces the entry of that URL as a whole.\<close>

definition cache_put :: "string \<Rightarrow> string \<Rightarrow> response \<Rightarrow> cache_storage \<Rightarrow> cache_storage" where
  "cache_put n u r cs = AList.update n (AList.update u r (cache_entries n cs)) cs"

record cache_io =
  cache_open_error :: "error option"
  cache_put_error :: "error option"

text \<open>
  \<^verbatim>\<open>const cache = await caches.open('xr-cache-v1'); await cache.put(url, response.clone())\<close>.
  The clone carries the status, the headers and the body of the response.
\<close>

definition open_and_put :: "cache_io \<Rightarrow> string \<Rightarrow> response \<Rightarrow> cache_storage \<Rightarrow> cache_storage \<times> error option" where
  "open_and_put io u r cs =
     (case cache_open_error io of
        Some e \<Rightarrow> (cs, Some e)
      | None \<Rightarrow>
          (case cache_put_error io of
             Some e \<Rightarrow> (caches_open ''xr-cache-v1'' cs, Some e)
           | None \<Rightarrow> (cache_put ''xr-cache-v1'' u r cs, None)))"

subsection \<open>The prefetch pipeline\<close>

text \<open>
  What a run does that an observer sees: the four callbacks with their arguments, and each
  \<^verbatim>\<open>fetch(url)\<close>. The first argument of \<^verbatim>\<open>onProgress\<close> is a JavaScript number,
  \<^verbatim>\<open>completed\<close> or \<^verbatim>\<open>completed + receivedLength / contentLength\<close>; it is a rational here.
\<close>

datatype event =
    OnFileStart string string
  | OnProgress rat nat string
  | OnFileComplete string string nat
  | OnFileError string string error
  | Fetch string

text \<open>An element of \<^verbatim>\<open>results\<close>: \<^verbatim>\<open>{url, name, cached: true, size}\<close>,
  \<^verbatim>\<open>{url, name, cached: false, size}\<close> or \<^verbatim>\<open>{url, name, error}\<close>.\<close>

datatype result_entry =
    Cached string string nat
  | Downloaded string string nat
  | Failed string string string

text \<open>
  What the platform answers while one element of \<^verbatim>\<open>assetList\<close> is processed, and what the
  caller's callbacks do when they are invoked during that iteration. A callback returns
  (\<open>None\<close>) or throws. Inside the \<^verbatim>\<open>try\<close> block the call is identified by its position
  among the events of the iteration and by its arguments; the \<^verbatim>\<open>catch\<close> block makes two
  calls, told apart by their arguments.
\<close>

record item_io =
  io_getMeta :: idb_io
  io_fetch :: fetch_result
  io_cache :: cache_io
  io_saveMeta :: idb_io
  io_now :: nat
  io_try_throws :: "nat \<Rightarrow> event \<Rightarrow> error option"
  io_catch_throws :: "event \<Rightarrow> error option"

text \<open>
  The \<^verbatim>\<open>while (true)\<close> loop over \<^verbatim>\<open>reader.read()\<close>: what the callbacks do, the position
  of the next event, the chunks still to come, how the stream ends, and \<^verbatim>\<open>receivedLength\<close>
  so far. It returns the \<^verbatim>\<open>onProgress\<close> calls made and either the error thrown, by a
  rejected read or by \<^verbatim>\<open>onProgress\<close>, or the final \<^verbatim>\<open>receivedLength\<close>. The \<^verbatim>\<open>total\<close> of
  the source is written \<open>total'\<close>.
\<close>

fun readLoop ::
  "(nat \<Rightarrow> event \<Rightarrow> error option) \<Rightarrow> nat \<Rightarrow> nat \<Rightarrow> nat \<Rightarrow> string \<Rightarrow> int option \<Rightarrow>
     chunk list \<Rightarrow> error option \<Rightarrow> nat \<Rightarrow> event list \<times> (error + nat)" where
  "readLoop throws pos completed total' name contentLength [] ending receivedLength =
     ([], case ending of Some e \<Rightarrow> Inl e | None \<Rightarrow> Inr receivedLength)"
| "readLoop throws pos completed total' name contentLength (v # vs) ending receivedLength =
     (let receivedLength' = receivedLength + length v;
          progress =
            (case contentLength of
               None \<Rightarrow> []
             | Some n \<Rightarrow>
                 if n > 0
                 then [OnProgress (of_nat completed + of_nat receivedLength' / of_int n) total' name]
                 else [])
      in case (case progress of [] \<Rightarrow> None | call # calls \<Rightarrow> throws pos call) of
           Some e \<Rightarrow> (progress, Inl e)
         | None \<Rightarrow>
             (case readLoop throws (pos + length progress) completed total' name contentLength
                     vs ending receivedLength' of
                (evs, r) \<Rightarrow> (progress @ evs, r)))"

text \<open>\<^verbatim>\<open>response.body.getReader()\<close> on a \<^verbatim>\<open>null\<close> body throws a \<^verbatim>\<open>TypeError\<close>.\<close>

definition readBody ::
  "(nat \<Rightarrow> event \<Rightarrow> error option) \<Rightarrow> nat \<Rightarrow> nat \<Rightarrow> nat \<Rightarrow> string \<Rightarrow> int option \<Rightarrow> body \<Rightarrow>
     event list \<times> (error + nat)" where
  "readBody throws pos completed total' name contentLength b =
     (case b of
        NullBody \<Rightarrow> ([], Inl (Error ''response.body is null''))
      | Stream chunks ending \<Rightarrow>
          readLoop throws pos completed total' name contentLength chunks ending 0)"

text \<open>
  The end of both successful paths of the \<^verbatim>\<open>try\<close> block, after \<^verbatim>\<open>completed++\<close>:
  \<^verbatim>\<open>onProgress(completed, total, name)\<close>, \<^verbatim>\<open>onFileComplete(url, name, size)\<close> and
  \<^verbatim>\<open>results.push(entry)\<close>. Here \<open>completed\<close> is the value already incremented and \<open>evs\<close>
  the events of the iteration so far.
\<close>

definition reportComplete ::
  "item_io \<Rightarrow> state \<Rightarrow> event list \<Rightarrow> nat \<Rightarrow> nat \<Rightarrow> string \<Rightarrow> string \<Rightarrow> nat \<Rightarrow> result_entry \<Rightarrow>
     state \<times> event list \<times> nat \<times> (error + result_entry)" where
  "reportComplete io s evs completed total' url name sz entry =
     (let progress = OnProgress (of_nat completed) total' name;
          complete = OnFileComplete url name sz in
      case io_try_throws io (length evs) progress of
        Some e \<Rightarrow> (s, evs @ [progress], completed, Inl e)
      | None \<Rightarrow>
          (case io_try_throws io (length evs + 1) complete of
             Some e \<Rightarrow> (s, evs @ [progress, complete], completed, Inl e)
           | None \<Rightarrow> (s, evs @ [progress, complete], completed, Inr entry)))"

text \<open>
  The \<^verbatim>\<open>try\<close> block of one iteration. It returns the state, the events and the value of
  \<^verbatim>\<open>completed\<close> at the point where it ends, and either the thrown error or the entry
  pushed to \<^verbatim>\<open>results\<close>.
\<close>

definition tryBlock ::
  "item_io \<Rightarrow> nat \<Rightarrow> nat \<Rightarrow> asset \<Rightarrow> state \<Rightarrow> state \<times> event list \<times> nat \<times> (error + result_entry)" where
  "tryBlock io completed total' a s =
     (let url = asset_url a; name = asset_name a; started = [OnFileStart url name] in
      case io_try_throws io 0 (OnFileStart url name) of
        Some e \<Rightarrow> (s, started, completed, Inl e)
      | None \<Rightarrow>
     (case getAssetMeta (io_getMeta io) url (metaStore s) of
        Inl e \<Rightarrow> (s, started, completed, Inl e)
      | Inr (Some meta) \<Rightarrow>
          reportComplete io s started (completed + 1) total' url name (meta_size meta)
            (Cached url name (meta_size meta))
      | Inr None \<Rightarrow>
          (case io_fetch io of
             NetworkFail e \<Rightarrow> (s, started @ [Fetch url], completed, Inl e)
           | Responded response \<Rightarrow>
               if \<not> ok response
               then (s, started @ [Fetch url], completed,
                     Inl (Error (''HTTP '' @ number_to_string (status response) @ '': '' @ statusText response)))
               else
                 (let contentLength = contentLength_of response in
                  case open_and_put (io_cache io) url response (cacheStorage s) of
                    (cs, Some e) \<Rightarrow> (s\<lparr>cacheStorage := cs\<rparr>, started @ [Fetch url], completed, Inl e)
                  | (cs, None) \<Rightarrow>
                      (let s1 = s\<lparr>cacheStorage := cs\<rparr> in
                       case readBody (io_try_throws io) 2 completed total' name contentLength
                              (resp_body response) of
                         (progress, Inl e) \<Rightarrow>
                           (s1, started @ [Fetch url] @ progress, completed, Inl e)
                       | (progress, Inr receivedLength) \<Rightarrow>
                           (case saveAssetMeta (io_saveMeta io) (io_now io) url
                                   \<lparr> arg_url = None,
                                     arg_size = receivedLength,
                                     arg_contentType = hdr_contentType response,
                                     arg_etag = hdr_etag response,
                                     arg_lastModified = hdr_lastModified response,
                                     arg_timestamp = None \<rparr>
                                   (metaStore s1) of
                              Inl e \<Rightarrow> (s1, started @ [Fetch url] @ progress, completed, Inl e)
                            | Inr store \<Rightarrow>
                                reportComplete io (s1\<lparr>metaStore := store\<rparr>)
                                  (started @ [Fetch url] @ progress) (completed + 1) total' url name
                                  receivedLength (Downloaded url name receivedLength)))))))"

text \<open>
  One iteration of the \<^verbatim>\<open>for\<close> loop: the \<^verbatim>\<open>try\<close> block and, when it throws, the
  \<^verbatim>\<open>catch\<close> block, which calls \<^verbatim>\<open>onFileError\<close>, increments \<^verbatim>\<open>completed\<close> as it then
  stands, calls \<^verbatim>\<open>onProgress\<close> and pushes the failed entry. A callback that throws in the
  \<^verbatim>\<open>catch\<close> block is under no \<^verbatim>\<open>try\<close>: the error leaves the loop. The iteration returns
  the state, the events, and either that error or the new \<^verbatim>\<open>completed\<close> with the entry
  pushed to \<^verbatim>\<open>results\<close>.
\<close>

definition processAsset ::
  "item_io \<Rightarrow> nat \<Rightarrow> nat \<Rightarrow> asset \<Rightarrow> state \<Rightarrow> state \<times> event list \<times> (error + nat \<times> result_entry)" where
  "processAsset io completed total' a s =
     (case tryBlock io completed total' a s of
        (s', evs, completed', Inr entry) \<Rightarrow> (s', evs, Inr (completed', entry))
      | (s', evs, completed', Inl e) \<Rightarrow>
          (let failed = OnFileError (asset_url a) (asset_name a) e;
               progress = OnProgress (of_nat (completed' + 1)) total' (asset_name a) in
           case io_catch_throws io failed of
             Some e' \<Rightarrow> (s', evs @ [failed], Inl e')
           | None \<Rightarrow>
               (case io_catch_throws io progress of
                  Some e' \<Rightarrow> (s', evs @ [failed, progress], Inl e')
                | None \<Rightarrow>
                    (s', evs @ [failed, progress],
                     Inr (completed' + 1, Failed (asset_url a) (asset_name a) (message e))))))"

text \<open>
  The \<^verbatim>\<open>for (const asset of assetList)\<close> loop from its \<open>i\<close>-th element on; \<open>env i\<close> is what
  the platform and the callbacks do during the \<open>i\<close>-th iteration. It returns the state, the
  events, the value of \<^verbatim>\<open>completed\<close>, and either the error that left the loop or the
  entries pushed to \<^verbatim>\<open>results\<close>.
\<close>

fun prefetchLoop ::
  "(nat \<Rightarrow> item_io) \<Rightarrow> nat \<Rightarrow> nat \<Rightarrow> nat \<Rightarrow> asset list \<Rightarrow> state \<Rightarrow>
     state \<times> event list \<times> nat \<times> (error + result_entry list)" where
  "prefetchLoop env i total' completed [] s = (s, [], completed, Inr [])"
| "prefetchLoop env i total' completed (a # as) s =
     (case processAsset (env i) completed total' a s of
        (s1, evs, Inl e) \<Rightarrow> (s1, evs, completed, Inl e)
      | (s1, evs, Inr (completed1, entry)) \<Rightarrow>
          (case prefetchLoop env (Suc i) total' completed1 as s1 of
             (s2, evs2, completed2, r) \<Rightarrow>
               (s2, evs @ evs2, completed2,
                case r of Inl e \<Rightarrow> Inl e | Inr entries \<Rightarrow> Inr (entry # entries))))"

text \<open>
  \<^verbatim>\<open>prefetchAssets\<close>: the state left, the events, and either the error with which the
  promise rejects or the \<^verbatim>\<open>results\<close> returned.
\<close>

definition prefetchAssets ::
  "(nat \<Rightarrow> item_io) \<Rightarrow> asset list \<Rightarrow> state \<Rightarrow> state \<times> event list \<times> (error + result_entry list)" where
  "prefetchAssets env assetList s =
     (case prefetchLoop env 0 (length assetList) 0 assetList s of
        (s', evs, completed, r) \<Rightarrow> (s', evs, r))"

subsection \<open>Clearing all caches\<close>

text \<open>\<^verbatim>\<open>cacheName.startsWith(p)\<close>.\<close>

definition startsWith :: "string \<Rightarrow> string \<Rightarrow> bool" where
  "startsWith s p = (take (length p) s = p)"

record delete_io =
  keys_error :: "error option"
  delete_error :: "string \<Rightarrow> error option"

text \<open>
  \<^verbatim>\<open>const cacheNames = await caches.keys(); await Promise.all(cacheNames.map(...))\<close>, the
  same in the page and in the worker: every cache whose name starts with \<^verbatim>\<open>xr-cache-\<close> has
  \<^verbatim>\<open>caches.delete\<close> called on it, and \<^verbatim>\<open>Promise.all\<close> rejects when one of them rejects.
  The deletions are all issued before the first can reject, so those that succeed take
  effect either way. The result is the Cache Storage left and the rejection, if any.
\<close>

definition deleteCaches :: "delete_io \<Rightarrow> cache_storage \<Rightarrow> cache_storage \<times> error option" where
  "deleteCaches io cs =
     (case keys_error io of
        Some e \<Rightarrow> (cs, Some e)
      | None \<Rightarrow>
          (let cacheNames = map fst cs;
               targets = filter (\<lambda>n. startsWith n ''xr-cache-'') cacheNames
           in (filter (\<lambda>(n, c). \<not> (startsWith n ''xr-cache-'' \<and> delete_error io n = None)) cs,
               case List.map_filter (delete_error io) targets of
                 [] \<Rightarrow> None
               | e # es \<Rightarrow> Some e)))"

text \<open>
  \<^verbatim>\<open>handleClearCache\<close> of the service worker (\<^verbatim>\<open>sw.js\<close>): the Cache Storage left and the
  \<^verbatim>\<open>ok\<close> field of the message it posts back.
\<close>

definition handleClearCache :: "delete_io \<Rightarrow> cache_storage \<Rightarrow> cache_storage \<times> bool" where
  "handleClearCache io cs =
     (case deleteCaches io cs of
        (cs', None) \<Rightarrow> (cs', True)
      | (cs', Some e) \<Rightarrow> (cs', False))"

text \<open>
  The service worker as \<^verbatim>\<open>clearAllCaches\<close> meets it: no controller, a \<^verbatim>\<open>postMessage\<close> that
  throws, a worker that never answers on the channel, or a worker that runs
  \<^verbatim>\<open>handleClearCache\<close> and answers.
\<close>

datatype worker = NoController | PostMessageThrows error | NoReply | Handles delete_io

record clear_io =
  cl_worker :: worker
  cl_page :: delete_io
  cl_meta :: idb_io

text \<open>
  \<^verbatim>\<open>clearAllCaches\<close>. \<open>None\<close>: the awaited reply never comes and the function does not
  return. Otherwise the state left and the boolean returned. The data of the reply is
  awaited and dropped.
\<close>

definition clearAllCaches :: "clear_io \<Rightarrow> state \<Rightarrow> (state \<times> bool) option" where
  "clearAllCaches io s =
     (case (case cl_worker io of
              NoController \<Rightarrow> Some (Inr (cacheStorage s))
            | PostMessageThrows e \<Rightarrow> Some (Inl e)
            | NoReply \<Rightarrow> None
            | Handles wio \<Rightarrow> Some (Inr (fst (handleClearCache wio (cacheStorage s))))) of
        None \<Rightarrow> None
      | Some (Inl e) \<Rightarrow> Some (s, False)
      | Some (Inr cs1) \<Rightarrow>
          (case deleteCaches (cl_page io) cs1 of
             (cs2, Some e) \<Rightarrow> Some (s\<lparr>cacheStorage := cs2\<rparr>, False)
           | (cs2, None) \<Rightarrow>
               (case clearAssetMeta (cl_meta io) (metaStore s) of
                  Inl e \<Rightarrow> Some (s\<lparr>cacheStorage := cs2\<rparr>, False)
                | Inr store \<Rightarrow> Some (\<lparr>metaStore = store, cacheStorage = cs2\<rparr>, True))))"

subsection \<open>Observations on a run\<close>

text \<open>The \<^verbatim>\<open>url\<close> and \<^verbatim>\<open>name\<close> fields of an element of \<^verbatim>\<open>results\<close>, and which of its three
  shapes it has.\<close>

fun entry_url :: "result_entry \<Rightarrow> string" where
  "entry_url (Cached u n sz) = u"
| "entry_url (Downloaded u n sz) = u"
| "entry_url (Failed u n msg) = u"

fun entry_name :: "result_entry \<Rightarrow> string" where
  "entry_name (Cached u n sz) = n"
| "entry_name (Downloaded u n sz) = n"
| "entry_name (Failed u n msg) = n"

fun is_downloaded :: "result_entry \<Rightarrow> bool" where
  "is_downloaded (Downloaded u n sz) = True"
| "is_downloaded e = False"

fun is_failed :: "result_entry \<Rightarrow> bool" where
  "is_failed (Failed u n msg) = True"
| "is_failed e = False"


text \<open>The entry a second run reports when it finds the record that a download wrote.\<close>

fun as_cached :: "result_entry \<Rightarrow> result_entry" where
  "as_cached (Downloaded u n sz) = Cached u n sz"
| "as_cached e = e"

text \<open>The first arguments of the \<^verbatim>\<open>onProgress\<close> calls of an event list, in order.\<close>

fun progress_values :: "event list \<Rightarrow> rat list" where
  "progress_values [] = []"
| "progress_values (OnProgress p t n # evs) = p # progress_values evs"
| "progress_values (e # evs) = progress_values evs"

text \<open>The \<^verbatim>\<open>fetch\<close> calls of an event list, in order.\<close>

fun fetches :: "event list \<Rightarrow> string list" where
  "fetches [] = []"
| "fetches (Fetch u # evs) = u # fetches evs"
| "fetches (e # evs) = fetches evs"

text \<open>The arguments of the \<^verbatim>\<open>onFileComplete\<close> calls of an event list, in order.\<close>

fun completions :: "event list \<Rightarrow> (string \<times> string \<times> nat) list" where
  "completions [] = []"
| "completions (OnFileComplete u n sz # evs) = (u, n, sz) # completions evs"
| "completions (e # evs) = completions evs"

text \<open>The state and the value of \<^verbatim>\<open>completed\<close> after the loop over the first \<open>i\<close>
  requests of \<open>assetList\<close>, with which the \<open>i\<close>-th iteration of a run starts when the run
  gets there, and that iteration.\<close>

definition stateBefore :: "(nat \<Rightarrow> item_io) \<Rightarrow> asset list \<Rightarrow> state \<Rightarrow> nat \<Rightarrow> state" where
  "stateBefore env assetList s i =
     fst (prefetchLoop env 0 (length assetList) 0 (take i assetList) s)"

definition completedBefore :: "(nat \<Rightarrow> item_io) \<Rightarrow> asset list \<Rightarrow> state \<Rightarrow> nat \<Rightarrow> nat" where
  "completedBefore env assetList s i =
     fst (snd (snd (prefetchLoop env 0 (length assetList) 0 (take i assetList) s)))"

definition iteration ::
  "(nat \<Rightarrow> item_io) \<Rightarrow> asset list \<Rightarrow> state \<Rightarrow> nat \<Rightarrow>
     state \<times> event list \<times> (error + nat \<times> result_entry)" where
  "iteration env assetList s i =
     processAsset (env i) (completedBefore env assetList s i) (length assetList) (assetList ! i)
       (stateBefore env assetList s i)"

text \<open>The run gets to its \<open>i\<close>-th iteration: no error has left the loop before.\<close>

definition reached :: "(nat \<Rightarrow> item_io) \<Rightarrow> asset list \<Rightarrow> state \<Rightarrow> nat \<Rightarrow> bool" where
  "reached env assetList s i =
     (case snd (snd (snd (prefetchLoop env 0 (length assetList) 0 (take i assetList) s))) of
        Inl e \<Rightarrow> False
      | Inr entries \<Rightarrow> True)"

text \<open>The events of an iteration, and the entry it pushes when no error leaves it.\<close>

definition events_of :: "state \<times> event list \<times> (error + nat \<times> result_entry) \<Rightarrow> event list" where
  "events_of r = fst (snd r)"

definition pushed :: "state \<times> event list \<times> (error + nat \<times> result_entry) \<Rightarrow> result_entry option" where
  "pushed r = (case snd (snd r) of Inl e \<Rightarrow> None | Inr (completed, entry) \<Rightarrow> Some entry)"

text \<open>The callbacks invoked in the \<^verbatim>\<open>try\<close> block of an iteration return; those invoked in
  its \<^verbatim>\<open>catch\<close> block return; both.\<close>

definition try_returns :: "item_io \<Rightarrow> bool" where
  "try_returns io = (\<forall>k call. io_try_throws io k call = None)"

definition catch_returns :: "item_io \<Rightarrow> bool" where
  "catch_returns io = (\<forall>call. io_catch_throws io call = None)"

text \<open>The \<^verbatim>\<open>onProgress\<close> and \<^verbatim>\<open>onFileComplete\<close> calls of the \<^verbatim>\<open>try\<close> block of an
  iteration return.\<close>

definition completion_returns :: "item_io \<Rightarrow> bool" where
  "completion_returns io =
     ((\<forall>k p t n. io_try_throws io k (OnProgress p t n) = None)
      \<and> (\<forall>k u n sz. io_try_throws io k (OnFileComplete u n sz) = None))"

definition callbacks_return :: "item_io \<Rightarrow> bool" where
  "callbacks_return io = (try_returns io \<and> catch_returns io)"

text \<open>The metadata store answers the lookup of an iteration: neither \<^verbatim>\<open>openDB\<close> nor the
  \<^verbatim>\<open>get\<close> request fails.\<close>

definition lookup_answered :: "item_io \<Rightarrow> bool" where
  "lookup_answered io =
     (open_error (io_getMeta io) = None \<and> request_error (io_getMeta io) = None)"

text \<open>The number of bytes a body stream delivers before it ends or fails.\<close>

definition delivered :: "chunk list \<Rightarrow> nat" where
  "delivered chunks = sum_list (map length chunks)"


subsection \<open>Concrete inputs\<close>

definition idb_ok :: idb_io where
  "idb_ok = \<lparr> open_error = None, request_error = None \<rparr>"

definition idb_down :: idb_io where
  "idb_down = \<lparr> open_error = None, request_error = Some (Error ''QuotaExceededError'') \<rparr>"

definition cache_ok :: cache_io where
  "cache_ok = \<lparr> cache_open_error = None, cache_put_error = None \<rparr>"

definition resp200 :: "string option \<Rightarrow> chunk list \<Rightarrow> response" where
  "resp200 cl chunks =
     \<lparr> status = 200, statusText = ''OK'', hdr_contentLength = cl,
       hdr_contentType = Some ''model/gltf-binary'', hdr_etag = Some ''v1'',
       hdr_lastModified = None, resp_body = Stream chunks None \<rparr>"

definition resp404 :: response where
  "resp404 =
     \<lparr> status = 404, statusText = ''Not Found'', hdr_contentLength = None,
       hdr_contentType = None, hdr_etag = None, hdr_lastModified = None,
       resp_body = NullBody \<rparr>"

definition io_good :: "string option \<Rightarrow> chunk list \<Rightarrow> item_io" where
  "io_good cl chunks =
     \<lparr> io_getMeta = idb_ok, io_fetch = Responded (resp200 cl chunks), io_cache = cache_ok,
       io_saveMeta = idb_ok, io_now = 1000,
       io_try_throws = (\<lambda>k call. None), io_catch_throws = (\<lambda>call. None) \<rparr>"

definition io_404 :: item_io where
  "io_404 =
     \<lparr> io_getMeta = idb_ok, io_fetch = Responded resp404, io_cache = cache_ok,
       io_saveMeta = idb_ok, io_now = 1000,
       io_try_throws = (\<lambda>k call. None), io_catch_throws = (\<lambda>call. None) \<rparr>"

definition io_offline :: item_io where
  "io_offline =
     \<lparr> io_getMeta = idb_ok, io_fetch = NetworkFail (Error ''Failed to fetch''), io_cache = cache_ok,
       io_saveMeta = idb_ok, io_now = 2000,
       io_try_throws = (\<lambda>k call. None), io_catch_throws = (\<lambda>call. None) \<rparr>"

definition io_save_fails :: "string option \<Rightarrow> chunk list \<Rightarrow> item_io" where
  "io_save_fails cl chunks =
     \<lparr> io_getMeta = idb_ok, io_fetch = Responded (resp200 cl chunks), io_cache = cache_ok,
       io_saveMeta = idb_down, io_now = 1000,
       io_try_throws = (\<lambda>k call. None), io_catch_throws = (\<lambda>call. None) \<rparr>"




definition empty_state :: state where
  "empty_state = \<lparr> metaStore = [], cacheStorage = [] \<rparr>"

definition assetA :: asset where
  "assetA = \<lparr> asset_url = ''/a.glb'', asset_name = ''a'' \<rparr>"

definition assetB :: asset where
  "assetB = \<lparr> asset_url = ''/b.glb'', asset_name = ''b'' \<rparr>"

definition assetC :: asset where
  "assetC = \<lparr> asset_url = ''/c.glb'', asset_name = ''c'' \<rparr>"

definition recordA :: asset_meta where
  "recordA =
     \<lparr> meta_url = ''/a.glb'', meta_size = 4, meta_contentType = Some ''model/gltf-binary'',
       meta_etag = Some ''v1'', meta_lastModified = None, meta_timestamp = 1000 \<rparr>"

definition delete_ok :: delete_io where
  "delete_ok = \<lparr> keys_error = None, delete_error = (\<lambda>n. None) \<rparr>"

definition delete_down :: delete_io where
  "delete_down = \<lparr> keys_error = Some (Error ''SecurityError''), delete_error = (\<lambda>n. None) \<rparr>"

definition always :: "item_io \<Rightarrow> nat \<Rightarrow> item_io" where
  "always io i = io"

definition env_ABC :: "nat \<Rightarrow> item_io" where
  "env_ABC i = (if i = 1 then io_404 else io_good (Some ''4'') [[1, 2], [3, 4]])"

definition env_AA :: "nat \<Rightarrow> item_io" where
  "env_AA i = (if i = 0 then io_good (Some ''4'') [[1, 2], [3, 4]] else io_offline)"


definition full_state :: state where
  "full_state =
     \<lparr> metaStore = [recordA],
       cacheStorage = [(''xr-cache-v1'', [(''/a.glb'', resp200 (Some ''4'') [[1, 2], [3, 4]])]),
                       (''fonts'', [])] \<rparr>"

definition clear_worker_fails :: clear_io where
  "clear_worker_fails = \<lparr> cl_worker = Handles delete_down, cl_page = delete_ok, cl_meta = idb_ok \<rparr>"

definition clear_meta_fails :: clear_io where
  "clear_meta_fails = \<lparr> cl_worker = NoController, cl_page = delete_ok, cl_meta = idb_down \<rparr>"

definition clear_post_throws :: clear_io where
  "clear_post_throws =
     \<lparr> cl_worker = PostMessageThrows (Error ''DataCloneError''), cl_page = delete_ok,
       cl_meta = idb_ok \<rparr>"

section \<open>Properties\<close>

subsection \<open>The metadata store\<close>

lemma store_get_store_put:
  "store_get u (store_put d rs) = (if meta_url d = u then Some d else store_get u rs)"
  by (induction rs) (auto simp: store_get_def)

lemma length_store_put:
  "length (store_put d rs) =
     (if store_get (meta_url d) rs = None then Suc (length rs) else length rs)"
  by (induction rs) (auto simp: store_get_def)

text \<open>
  Claim C6, as amended. \<^verbatim>\<open>saveAssetMeta\<close> is an upsert: when it succeeds for a \<^verbatim>\<open>meta\<close>
  object without a \<^verbatim>\<open>url\<close> key of its own, the store holds for the identifier exactly the
  record built from \<^verbatim>\<open>meta\<close>, whatever was there before; the records of other identifiers
  are as they were; a record is added only when there was none. The timestamp of the record
  is always the current time: a \<^verbatim>\<open>timestamp\<close> supplied by the caller is not kept.
\<close>

theorem saveAssetMeta_upsert:
  assumes "saveAssetMeta io now u meta store = Inr store'"
    and "arg_url meta = None"
  shows "store_get u store' =
           Some \<lparr> meta_url = u, meta_size = arg_size meta,
                  meta_contentType = arg_contentType meta, meta_etag = arg_etag meta,
                  meta_lastModified = arg_lastModified meta, meta_timestamp = now \<rparr>
         \<and> (\<forall>u'. u' \<noteq> u \<longrightarrow> store_get u' store' = store_get u' store)
         \<and> length store' = (if store_get u store = None then Suc (length store) else length store)"
  using assms
  by (auto simp: saveAssetMeta_def openDB_def store_get_store_put length_store_put
           split: option.splits)

theorem saveAssetMeta_upsert_witness:
  "store_get ''/a.glb'' [recordA\<lparr> meta_size := 9, meta_timestamp := 2000 \<rparr>] =
     Some \<lparr> meta_url = ''/a.glb'', meta_size = 9, meta_contentType = Some ''model/gltf-binary'',
            meta_etag = Some ''v1'', meta_lastModified = None, meta_timestamp = 2000 \<rparr>
   \<and> saveAssetMeta idb_ok 2000 ''/a.glb''
        \<lparr> arg_url = None, arg_size = 9, arg_contentType = Some ''model/gltf-binary'',
          arg_etag = Some ''v1'', arg_lastModified = None, arg_timestamp = Some 5 \<rparr>
        [recordA] = Inr [recordA\<lparr> meta_size := 9, meta_timestamp := 2000 \<rparr>]"
proof -
  have run: "saveAssetMeta idb_ok 2000 ''/a.glb''
        \<lparr> arg_url = None, arg_size = 9, arg_contentType = Some ''model/gltf-binary'',
          arg_etag = Some ''v1'', arg_lastModified = None, arg_timestamp = Some 5 \<rparr>
        [recordA] = Inr [recordA\<lparr> meta_size := 9, meta_timestamp := 2000 \<rparr>]"
    by (simp add: saveAssetMeta_def openDB_def idb_ok_def recordA_def)
  from saveAssetMeta_upsert [OF run] show ?thesis
    using run by simp
qed

text \<open>
  Claim C6 as stated fails: a caller sets the timestamp 5 in the record and saves it at time
  2000 into an empty store; the record stored carries 2000, not 5.
\<close>

theorem saveAssetMeta_timestamp_counterexample:
  "saveAssetMeta idb_ok 2000 ''/a.glb''
     \<lparr> arg_url = None, arg_size = 4, arg_contentType = None, arg_etag = None,
       arg_lastModified = None, arg_timestamp = Some 5 \<rparr> []
   = Inr [\<lparr> meta_url = ''/a.glb'', meta_size = 4, meta_contentType = None, meta_etag = None,
            meta_lastModified = None, meta_timestamp = 2000 \<rparr>]
   \<and> (2000 :: nat) \<noteq> 5"
  by (simp add: saveAssetMeta_def openDB_def idb_ok_def)

subsection \<open>Cache statistics\<close>

lemma foldl_size_sum:
  "foldl (\<lambda>sum item. sum + size_or_zero (meta_size item)) a recs =
     a + sum_list (map meta_size recs)"
  by (induction recs arbitrary: a) (auto simp: size_or_zero_def)

lemma foldl_max_Max: "foldl max (x::nat) xs = Max (set (x # xs))"
proof (induction xs arbitrary: x)
  case Nil
  show ?case by simp
next
  case (Cons y ys)
  have "Max (set (max x y # ys)) = Max (set (x # y # ys))"
    by (cases "ys = []") (simp_all add: max.assoc)
  with Cons show ?case by simp
qed

text \<open>
  Claim C8. When the metadata store answers \<^verbatim>\<open>getAll\<close> with the records \<open>recs\<close>,
  \<^verbatim>\<open>getCacheInfo\<close> returns their number as the file count, the sum of their sizes as the
  total size, and the maximum of their timestamps as the latest update, \<^verbatim>\<open>null\<close> when there
  is no record; and this whatever the Cache Storage \<open>cs\<close> holds, which it does not read. The
  function returns no state: it writes nothing.
\<close>

theorem getCacheInfo_from_metadata:
  assumes "getAllAssetMeta io (metaStore s) = Inr recs"
  shows "getCacheInfo io (s\<lparr>cacheStorage := cs\<rparr>) =
           Some \<lparr> ci_version = ''xr-cache-v1'',
                  ci_files = length recs,
                  ci_totalSize = sum_list (map meta_size recs),
                  ci_latestUpdate =
                    (if recs = [] then None else Some (Max (set (map meta_timestamp recs)))),
                  ci_assets = recs \<rparr>"
proof (cases recs)
  case Nil
  with assms show ?thesis by (simp add: getCacheInfo_def)
next
  case (Cons r rs)
  with assms show ?thesis
    by (simp add: getCacheInfo_def foldl_size_sum foldl_max_Max del: Max_insert set_simps)
qed

theorem getCacheInfo_from_metadata_witness:
  "getCacheInfo idb_ok
     \<lparr> metaStore = [recordA, recordA\<lparr> meta_url := ''/c.glb'', meta_size := 6, meta_timestamp := 3000 \<rparr>],
       cacheStorage = [(''xr-cache-v1'', [])] \<rparr> =
   Some \<lparr> ci_version = ''xr-cache-v1'', ci_files = 2, ci_totalSize = 10,
          ci_latestUpdate = Some 3000,
          ci_assets = [recordA, recordA\<lparr> meta_url := ''/c.glb'', meta_size := 6, meta_timestamp := 3000 \<rparr>] \<rparr>"
proof -
  let ?recs = "[recordA, recordA\<lparr> meta_url := ''/c.glb'', meta_size := 6, meta_timestamp := 3000 \<rparr>]"
  have h: "getAllAssetMeta idb_ok (metaStore \<lparr> metaStore = ?recs, cacheStorage = [] \<rparr>) = Inr ?recs"
    by (simp add: getAllAssetMeta_def openDB_def idb_ok_def)
  from getCacheInfo_from_metadata [OF h, of "[(''xr-cache-v1'', [])]"] show ?thesis
    by (simp add: recordA_def)
qed

subsection \<open>One iteration of the pipeline\<close>

lemma try_returns_simp [simp]: "try_returns io \<Longrightarrow> io_try_throws io k call = None"
  by (simp add: try_returns_def)

lemma catch_returns_simp [simp]: "catch_returns io \<Longrightarrow> io_catch_throws io call = None"
  by (simp add: catch_returns_def)

lemma readLoop_Inr:
  "readLoop throws pos c t n cl chunks ending r = (evs, Inr len) \<Longrightarrow>
     ending = None \<and> len = r + delivered chunks"
proof (induction chunks arbitrary: pos r evs)
  case Nil
  then show ?case by (auto simp: delivered_def split: option.splits)
next
  case (Cons v vs)
  from Cons.prems obtain pos' evs' where
    "readLoop throws pos' c t n cl vs ending (r + length v) = (evs', Inr len)"
    by (auto simp: Let_def split: option.splits prod.splits)
  from Cons.IH [OF this] show ?case by (simp add: delivered_def)
qed

lemma readBody_Inr:
  "readBody throws pos c t n cl b = (evs, Inr len) \<Longrightarrow>
     \<exists>chunks. b = Stream chunks None \<and> len = delivered chunks"
  by (cases b) (auto simp: readBody_def dest: readLoop_Inr)

lemma fetches_append [simp]: "fetches (xs @ ys) = fetches xs @ fetches ys"
  by (induction xs rule: fetches.induct) auto

lemma progress_values_append [simp]:
  "progress_values (xs @ ys) = progress_values xs @ progress_values ys"
  by (induction xs rule: progress_values.induct) auto

lemma completions_append [simp]: "completions (xs @ ys) = completions xs @ completions ys"
  by (induction xs rule: completions.induct) auto

lemma readLoop_fetches [simp]:
  "fetches (fst (readLoop throws pos c t n cl chunks ending r)) = []"
  by (induction chunks arbitrary: pos r)
     (auto simp: Let_def case_prod_beta split: option.splits)

lemma readLoop_completions [simp]:
  "completions (fst (readLoop throws pos c t n cl chunks ending r)) = []"
  by (induction chunks arbitrary: pos r)
     (auto simp: Let_def case_prod_beta split: option.splits)

lemma readBody_completions_fst [simp]:
  "completions (fst (readBody throws pos c t n cl b)) = []"
  by (cases b) (simp_all add: readBody_def)

lemma readBody_completions:
  "readBody throws pos c t n cl b = (evs, res) \<Longrightarrow> completions evs = []"
  using readBody_completions_fst [of throws pos c t n cl b] by simp

lemma readBody_fetches_fst [simp]: "fetches (fst (readBody throws pos c t n cl b)) = []"
  by (cases b) (simp_all add: readBody_def)

lemma readBody_fetches:
  "readBody throws pos c t n cl b = (evs, res) \<Longrightarrow> fetches evs = []"
  using readBody_fetches_fst [of throws pos c t n cl b] by simp

lemma getAssetMeta_answered:
  "lookup_answered io \<Longrightarrow> getAssetMeta (io_getMeta io) u store = Inr (store_get u store)"
  by (simp add: lookup_answered_def getAssetMeta_def openDB_def)

lemma getAssetMeta_Inr:
  "getAssetMeta gio u store = Inr found \<Longrightarrow> found = store_get u store"
  by (auto simp: getAssetMeta_def openDB_def split: option.splits)

text \<open>The end of a successful path.\<close>

lemma reportComplete_cases:
  assumes "reportComplete io s evs c t u n sz entry = (s', evs', c', r)"
  shows "s' = s \<and> c' = c \<and> fetches evs' = fetches evs
         \<and> (r = Inr entry
              \<and> evs' = evs @ [OnProgress (of_nat c) t n, OnFileComplete u n sz]
            \<or> (\<exists>e. r = Inl e
                  \<and> (io_try_throws io (length evs) (OnProgress (of_nat c) t n) = Some e
                      \<and> evs' = evs @ [OnProgress (of_nat c) t n]
                     \<or> io_try_throws io (length evs + 1) (OnFileComplete u n sz) = Some e
                      \<and> evs' = evs @ [OnProgress (of_nat c) t n, OnFileComplete u n sz])))"
  using assms by (auto simp: reportComplete_def Let_def split: option.splits)

lemma reportComplete_returns:
  assumes "try_returns io"
  shows "reportComplete io s evs c t u n sz entry =
           (s, evs @ [OnProgress (of_nat c) t n, OnFileComplete u n sz], c, Inr entry)"
  using assms by (simp add: reportComplete_def Let_def)


text \<open>What the \<^verbatim>\<open>try\<close> block can do to the metadata store: nothing, or one \<^verbatim>\<open>put\<close> of the
  record of a body that was read to its end, for an identifier that had no record; after
  the \<^verbatim>\<open>put\<close> only the two calls of the end can throw.\<close>

lemma tryBlock_store:
  assumes "tryBlock io c t a s = (s', evs, c', r)"
  shows "(metaStore s' = metaStore s \<and> (\<forall>entry. r = Inr entry \<longrightarrow> \<not> is_downloaded entry))
         \<or> (\<exists>resp chunks. io_fetch io = Responded resp \<and> ok resp
               \<and> resp_body resp = Stream chunks None
               \<and> store_get (asset_url a) (metaStore s) = None
               \<and> metaStore s' =
                   store_put \<lparr> meta_url = asset_url a, meta_size = delivered chunks,
                               meta_contentType = hdr_contentType resp, meta_etag = hdr_etag resp,
                               meta_lastModified = hdr_lastModified resp,
                               meta_timestamp = io_now io \<rparr> (metaStore s)
               \<and> c' = c + 1
               \<and> (r = Inr (Downloaded (asset_url a) (asset_name a) (delivered chunks))
                   \<or> (\<exists>k e. r = Inl e
                         \<and> (io_try_throws io k (OnProgress (of_nat (c + 1)) t (asset_name a)) = Some e
                             \<or> io_try_throws io k
                                  (OnFileComplete (asset_url a) (asset_name a) (delivered chunks)) = Some e))))"
proof (cases "io_try_throws io 0 (OnFileStart (asset_url a) (asset_name a))")
  case (Some e)
  with assms show ?thesis by (auto simp: tryBlock_def Let_def)
next
  case started: None
  show ?thesis
  proof (cases "getAssetMeta (io_getMeta io) (asset_url a) (metaStore s)")
    case (Inl e)
    with assms started show ?thesis by (auto simp: tryBlock_def Let_def)
  next
    case (Inr found)
    show ?thesis
    proof (cases found)
      case (Some m)
      with Inr assms started have
        "reportComplete io s [OnFileStart (asset_url a) (asset_name a)] (c + 1) t
           (asset_url a) (asset_name a) (meta_size m)
           (Cached (asset_url a) (asset_name a) (meta_size m)) = (s', evs, c', r)"
        by (simp add: tryBlock_def Let_def)
      from reportComplete_cases [OF this] show ?thesis by auto
    next
      case None
      with Inr have absent: "store_get (asset_url a) (metaStore s) = None"
        using getAssetMeta_Inr by fastforce
      show ?thesis
      proof (cases "io_fetch io")
        case (NetworkFail e)
        with assms started Inr None show ?thesis by (auto simp: tryBlock_def Let_def)
      next
        case (Responded resp)
        show ?thesis
        proof (cases "ok resp")
          case False
          with assms started Inr None Responded show ?thesis
            by (auto simp: tryBlock_def Let_def)
        next
          case True
          obtain cs perr where put: "open_and_put (io_cache io) (asset_url a) resp (cacheStorage s) = (cs, perr)"
            by (metis prod.collapse)
          show ?thesis
          proof (cases perr)
            case (Some e)
            with assms started Inr None Responded True put show ?thesis
              by (auto simp: tryBlock_def Let_def)
          next
            case noerr: None
            obtain progress res where body:
              "readBody (io_try_throws io) 2 c t (asset_name a) (contentLength_of resp) (resp_body resp)
                 = (progress, res)"
              by (metis prod.collapse)
            show ?thesis
            proof (cases res)
              case (Inl e)
              with assms started Inr None Responded True put noerr body show ?thesis
                by (auto simp: tryBlock_def Let_def)
            next
              case len: (Inr receivedLength)
              from readBody_Inr body len obtain chunks where
                chunks: "resp_body resp = Stream chunks None" "receivedLength = delivered chunks"
                by blast
              show ?thesis
              proof (cases "saveAssetMeta (io_saveMeta io) (io_now io) (asset_url a)
                                   \<lparr> arg_url = None,
                                     arg_size = receivedLength,
                                     arg_contentType = hdr_contentType resp,
                                     arg_etag = hdr_etag resp,
                                     arg_lastModified = hdr_lastModified resp,
                                     arg_timestamp = None \<rparr>
                                   (metaStore s)")
                case (Inl e)
                with assms started Inr None Responded True put noerr body len show ?thesis
                  by (auto simp: tryBlock_def Let_def)
              next
                case saved: (Inr store)
                then have store: "store =
                   store_put \<lparr> meta_url = asset_url a, meta_size = delivered chunks,
                               meta_contentType = hdr_contentType resp, meta_etag = hdr_etag resp,
                               meta_lastModified = hdr_lastModified resp,
                               meta_timestamp = io_now io \<rparr> (metaStore s)"
                  using chunks(2)
                  by (auto simp: saveAssetMeta_def openDB_def split: option.splits)
                from assms started Inr None Responded True put noerr body len saved have
                  "reportComplete io (s\<lparr>cacheStorage := cs, metaStore := store\<rparr>)
                     ([OnFileStart (asset_url a) (asset_name a), Fetch (asset_url a)] @ progress)
                     (c + 1) t (asset_url a) (asset_name a) receivedLength
                     (Downloaded (asset_url a) (asset_name a) receivedLength) = (s', evs, c', r)"
                  by (simp add: tryBlock_def Let_def)
                from reportComplete_cases [OF this] Responded True chunks absent store
                show ?thesis by auto
              qed
            qed
          qed
        qed
      qed
    qed
  qed
qed


lemmas tryBlock_splits =
  sum.splits option.splits fetch_result.splits prod.splits if_splits

lemma tryBlock_entry:
  "tryBlock io c t a s = (s', evs, c', Inr entry) \<Longrightarrow>
     entry_url entry = asset_url a \<and> entry_name entry = asset_name a \<and> c' = c + 1
     \<and> \<not> is_failed entry"
  by (auto simp: tryBlock_def reportComplete_def Let_def split: tryBlock_splits)

lemma tryBlock_thrown_quiet:
  "try_returns io \<Longrightarrow> tryBlock io c t a s = (s', evs, c', Inl e) \<Longrightarrow> c' = c"
  by (auto simp: tryBlock_def reportComplete_def Let_def split: tryBlock_splits)

lemma processAsset_pushed:
  "tryBlock io c t a s = (s', evs, c', Inr entry) \<Longrightarrow>
     processAsset io c t a s = (s', evs, Inr (c', entry))"
  by (simp add: processAsset_def)

lemma processAsset_caught:
  "tryBlock io c t a s = (s', evs, c', Inl e) \<Longrightarrow> catch_returns io \<Longrightarrow>
     processAsset io c t a s =
       (s', evs @ [OnFileError (asset_url a) (asset_name a) e,
                   OnProgress (of_nat (c' + 1)) t (asset_name a)],
        Inr (c' + 1, Failed (asset_url a) (asset_name a) (message e)))"
  by (simp add: processAsset_def Let_def)




lemma processAsset_returns:
  assumes "callbacks_return io"
  shows "\<exists>s' evs entry. processAsset io c t a s = (s', evs, Inr (c + 1, entry))"
proof -
  from assms have tr: "try_returns io" and cr: "catch_returns io"
    by (simp_all add: callbacks_return_def)
  obtain s1 evs1 c1 r where tb: "tryBlock io c t a s = (s1, evs1, c1, r)"
    by (metis prod_cases4)
  show ?thesis
  proof (cases r)
    case (Inl e)
    with tb tryBlock_thrown_quiet [OF tr] have "c1 = c" by blast
    with tb Inl processAsset_caught [OF _ cr] show ?thesis by blast
  next
    case (Inr en)
    with tb tryBlock_entry have "c1 = c + 1" by blast
    with tb Inr processAsset_pushed show ?thesis by blast
  qed
qed



subsection \<open>A run as a sequence of iterations\<close>

lemma prefetchLoop_append:
  "prefetchLoop env i t c (xs @ ys) s =
     (case prefetchLoop env i t c xs s of
        (s1, evs1, c1, Inl e) \<Rightarrow> (s1, evs1, c1, Inl e)
      | (s1, evs1, c1, Inr rs1) \<Rightarrow>
          (case prefetchLoop env (i + length xs) t c1 ys s1 of
             (s2, evs2, c2, r) \<Rightarrow>
               (s2, evs1 @ evs2, c2,
                case r of Inl e \<Rightarrow> Inl e | Inr rs2 \<Rightarrow> Inr (rs1 @ rs2))))"
proof (induction xs arbitrary: i c s)
  case Nil
  show ?case by (simp split: prod.splits sum.splits)
next
  case (Cons a as)
  show ?case
    by (simp add: Cons.IH split: prod.splits sum.splits)
qed

lemma stateBefore_0 [simp]: "stateBefore env xs s 0 = s"
  by (simp add: stateBefore_def)

lemma completedBefore_0 [simp]: "completedBefore env xs s 0 = 0"
  by (simp add: completedBefore_def)

lemma reached_0 [simp]: "reached env xs s 0"
  by (simp add: reached_def)

text \<open>The loop over the first \<open>k\<close> requests, when the run gets to the \<open>k\<close>-th iteration.\<close>

lemma reached_prefix:
  assumes "reached env xs s k"
  shows "\<exists>evs rs. prefetchLoop env 0 (length xs) 0 (take k xs) s =
           (stateBefore env xs s k, evs, completedBefore env xs s k, Inr rs)"
proof -
  obtain s1 evs c r where p: "prefetchLoop env 0 (length xs) 0 (take k xs) s = (s1, evs, c, r)"
    by (metis prod_cases4)
  with assms show ?thesis
    by (cases r) (simp_all add: reached_def stateBefore_def completedBefore_def)
qed

lemma prefetchLoop_take_Suc:
  assumes "k < length xs"
    and "prefetchLoop env 0 (length xs) 0 (take k xs) s =
           (stateBefore env xs s k, evs, completedBefore env xs s k, Inr rs)"
  shows "prefetchLoop env 0 (length xs) 0 (take (Suc k) xs) s =
           (case iteration env xs s k of
              (s2, evs2, Inl e) \<Rightarrow> (s2, evs @ evs2, completedBefore env xs s k, Inl e)
            | (s2, evs2, Inr (c2, entry)) \<Rightarrow> (s2, evs @ evs2, c2, Inr (rs @ [entry])))"
  using assms
  by (simp add: take_Suc_conv_app_nth prefetchLoop_append min_def iteration_def
        split: prod.splits sum.splits)

lemma stateBefore_Suc:
  assumes "i < length xs" and "reached env xs s i"
  shows "stateBefore env xs s (Suc i) = fst (iteration env xs s i)"
proof -
  from reached_prefix [OF assms(2)] obtain evs rs where
    p: "prefetchLoop env 0 (length xs) 0 (take i xs) s =
           (stateBefore env xs s i, evs, completedBefore env xs s i, Inr rs)"
    by blast
  show ?thesis
    unfolding stateBefore_def [of env xs s "Suc i"] prefetchLoop_take_Suc [OF assms(1) p]
    by (simp split: prod.splits sum.splits)
qed

lemma iteration_pushed_Suc:
  assumes "i < length xs" and "reached env xs s i"
    and "iteration env xs s i = (s', evs', Inr (c', entry))"
  shows "reached env xs s (Suc i) \<and> completedBefore env xs s (Suc i) = c'
         \<and> stateBefore env xs s (Suc i) = s'"
proof -
  from reached_prefix [OF assms(2)] obtain evs rs where
    p: "prefetchLoop env 0 (length xs) 0 (take i xs) s =
           (stateBefore env xs s i, evs, completedBefore env xs s i, Inr rs)"
    by blast
  show ?thesis
    unfolding reached_def [of env xs s "Suc i"] completedBefore_def [of env xs s "Suc i"]
      stateBefore_def [of env xs s "Suc i"] prefetchLoop_take_Suc [OF assms(1) p]
    by (simp add: assms(3))
qed




lemma callbacks_return_completed:
  "\<forall>i<k. callbacks_return (env i) \<Longrightarrow> k \<le> length xs \<Longrightarrow>
     reached env xs s k \<and> completedBefore env xs s k = k"
proof (induction k)
  case 0
  show ?case by simp
next
  case (Suc k)
  then have k: "k < length xs" and r: "reached env xs s k" and c: "completedBefore env xs s k = k"
    by simp_all
  from Suc.prems have "callbacks_return (env k)" by simp
  from processAsset_returns [OF this] obtain s' evs' entry where
    "iteration env xs s k = (s', evs', Inr (completedBefore env xs s k + 1, entry))"
    unfolding iteration_def by blast
  from iteration_pushed_Suc [OF k r this] c show ?case by simp
qed







subsection \<open>Cache hits and failed downloads\<close>

lemma processAsset_hit:
  assumes "try_returns io"
    and "getAssetMeta (io_getMeta io) (asset_url a) (metaStore s) = Inr (Some m)"
  shows "processAsset io c t a s =
           (s, [OnFileStart (asset_url a) (asset_name a),
                OnProgress (of_nat (c + 1)) t (asset_name a),
                OnFileComplete (asset_url a) (asset_name a) (meta_size m)],
            Inr (c + 1, Cached (asset_url a) (asset_name a) (meta_size m)))"
  using assms
  by (simp add: processAsset_def tryBlock_def Let_def reportComplete_returns)

text \<open>
  Claim C2. The \<open>i\<close>-th iteration of a run, when the callbacks returned in the iterations
  before it and return in its \<^verbatim>\<open>try\<close> block, and its lookup finds a record \<open>m\<close> for the
  identifier: the run gets there with \<^verbatim>\<open>completed\<close> equal to \<open>i\<close>, and \<^verbatim>\<open>completed\<close> goes to
  \<open>i + 1\<close>; after \<^verbatim>\<open>onFileStart\<close> the callbacks are \<^verbatim>\<open>onProgress\<close> with the new count and
  then \<^verbatim>\<open>onFileComplete\<close> with the size of \<open>m\<close>, and nothing else; no \<^verbatim>\<open>fetch\<close> is issued;
  the entry is the cached one with the size of \<open>m\<close>; and the state is left as it was.
\<close>

theorem cache_hit_short_circuit:
  assumes "i < length assetList"
    and "\<forall>j<i. callbacks_return (env j)"
    and "try_returns (env i)"
    and "getAssetMeta (io_getMeta (env i)) (asset_url (assetList ! i))
           (metaStore (stateBefore env assetList s i)) = Inr (Some m)"
  shows "iteration env assetList s i =
           (stateBefore env assetList s i,
            [OnFileStart (asset_url (assetList ! i)) (asset_name (assetList ! i)),
             OnProgress (of_nat (i + 1)) (length assetList) (asset_name (assetList ! i)),
             OnFileComplete (asset_url (assetList ! i)) (asset_name (assetList ! i)) (meta_size m)],
            Inr (i + 1,
                 Cached (asset_url (assetList ! i)) (asset_name (assetList ! i)) (meta_size m)))
         \<and> fetches (events_of (iteration env assetList s i)) = []
         \<and> stateBefore env assetList s (Suc i) = stateBefore env assetList s i
         \<and> reached env assetList s i"
proof -
  from callbacks_return_completed [OF assms(2), of assetList s] assms(1) have
    r: "reached env assetList s i" and c: "completedBefore env assetList s i = i"
    by simp_all
  from processAsset_hit [OF assms(3,4), of i "length assetList"] c r assms(1)
  show ?thesis
    by (simp add: iteration_def events_of_def stateBefore_Suc)
qed

text \<open>
  The same request twice: the second occurrence finds the record the first one wrote, and
  the network, which would fail, is not asked.
\<close>

theorem cache_hit_short_circuit_witness:
  "(1::nat) < length [assetA, assetA]
   \<and> getAssetMeta (io_getMeta (env_AA 1)) (asset_url ([assetA, assetA] ! 1))
        (metaStore (stateBefore env_AA [assetA, assetA] empty_state 1)) = Inr (Some recordA)
   \<and> iteration env_AA [assetA, assetA] empty_state 1 =
       (stateBefore env_AA [assetA, assetA] empty_state 1,
        [OnFileStart ''/a.glb'' ''a'', OnProgress 2 2 ''a'', OnFileComplete ''/a.glb'' ''a'' 4],
        Inr (2, Cached ''/a.glb'' ''a'' 4))"
proof -
  have i: "(1::nat) < length [assetA, assetA]" by simp
  have before: "\<forall>j<1. callbacks_return (env_AA j)"
    by (simp add: callbacks_return_def try_returns_def catch_returns_def env_AA_def io_good_def)
  have here: "try_returns (env_AA 1)"
    by (simp add: try_returns_def env_AA_def io_offline_def)
  have found: "getAssetMeta (io_getMeta (env_AA 1)) (asset_url ([assetA, assetA] ! 1))
        (metaStore (stateBefore env_AA [assetA, assetA] empty_state 1)) = Inr (Some recordA)"
    by code_simp
  from cache_hit_short_circuit [OF i before here found] show ?thesis
    using found by (simp add: assetA_def recordA_def)
qed

text \<open>
  Claim C5, as amended. The \<open>i\<close>-th iteration of a run whose callbacks return up to that
  iteration, when the lookup finds no record and the download fails with \<open>e\<close>, a network
  error or the error made from a status outside 200 to 299: after \<^verbatim>\<open>onFileStart\<close> and the
  \<^verbatim>\<open>fetch\<close>, \<^verbatim>\<open>onFileError\<close> is invoked first, with the identifier, the display name and
  \<open>e\<close>; then \<^verbatim>\<open>completed\<close> goes from \<open>i\<close> to \<open>i + 1\<close> and \<^verbatim>\<open>onProgress\<close> is invoked with the
  new count. The entry is the failed one with the message of \<open>e\<close>, and the state is left as
  it was.
\<close>

theorem failed_download_callbacks:
  assumes "i < length assetList"
    and "\<forall>j\<le>i. callbacks_return (env j)"
    and "getAssetMeta (io_getMeta (env i)) (asset_url (assetList ! i))
           (metaStore (stateBefore env assetList s i)) = Inr None"
    and "io_fetch (env i) = NetworkFail e
         \<or> (\<exists>r. io_fetch (env i) = Responded r \<and> \<not> ok r
                \<and> e = Error (''HTTP '' @ number_to_string (status r) @ '': '' @ statusText r))"
  shows "iteration env assetList s i =
           (stateBefore env assetList s i,
            [OnFileStart (asset_url (assetList ! i)) (asset_name (assetList ! i)),
             Fetch (asset_url (assetList ! i)),
             OnFileError (asset_url (assetList ! i)) (asset_name (assetList ! i)) e,
             OnProgress (of_nat (i + 1)) (length assetList) (asset_name (assetList ! i))],
            Inr (i + 1,
                 Failed (asset_url (assetList ! i)) (asset_name (assetList ! i)) (message e)))"
proof -
  from assms(2) have before: "\<forall>j<i. callbacks_return (env j)" by simp
  from callbacks_return_completed [OF before, of assetList s] assms(1) have
    c: "completedBefore env assetList s i = i"
    by simp
  from assms(2) have "try_returns (env i)" and "catch_returns (env i)"
    by (simp_all add: callbacks_return_def)
  with assms(3,4) c show ?thesis
    by (auto simp: iteration_def processAsset_def tryBlock_def Let_def)
qed

text \<open>
  The second of three requests, answered with status 404.
\<close>

theorem failed_download_callbacks_witness:
  "(1::nat) < length [assetA, assetB, assetC]
   \<and> io_fetch (env_ABC 1) = Responded resp404 \<and> \<not> ok resp404
   \<and> iteration env_ABC [assetA, assetB, assetC] empty_state 1 =
       (stateBefore env_ABC [assetA, assetB, assetC] empty_state 1,
        [OnFileStart ''/b.glb'' ''b'', Fetch ''/b.glb'',
         OnFileError ''/b.glb'' ''b'' (Error ''HTTP 404: Not Found''),
         OnProgress 2 3 ''b''],
        Inr (2, Failed ''/b.glb'' ''b'' ''HTTP 404: Not Found''))"
proof -
  have i: "(1::nat) < length [assetA, assetB, assetC]" by simp
  have quiet: "\<forall>j\<le>1. callbacks_return (env_ABC j)"
    by (simp add: callbacks_return_def try_returns_def catch_returns_def env_ABC_def
          io_good_def io_404_def)
  have miss: "getAssetMeta (io_getMeta (env_ABC 1)) (asset_url ([assetA, assetB, assetC] ! 1))
           (metaStore (stateBefore env_ABC [assetA, assetB, assetC] empty_state 1)) = Inr None"
    by code_simp
  have resp: "io_fetch (env_ABC 1) = Responded resp404" by code_simp
  have nok: "\<not> ok resp404" by code_simp
  have msg: "Error ''HTTP 404: Not Found'' =
          Error (''HTTP '' @ number_to_string (status resp404) @ '': '' @ statusText resp404)"
    by code_simp
  have fails: "io_fetch (env_ABC 1) = NetworkFail (Error ''HTTP 404: Not Found'')
         \<or> (\<exists>r. io_fetch (env_ABC 1) = Responded r \<and> \<not> ok r
                \<and> Error ''HTTP 404: Not Found'' =
                    Error (''HTTP '' @ number_to_string (status r) @ '': '' @ statusText r))"
    using resp nok msg by blast
  from failed_download_callbacks [OF i quiet miss fails] show ?thesis
    using resp nok by (simp add: assetB_def)
qed

text \<open>
  Claim C5 as stated fails: a single request answered with status 404. \<^verbatim>\<open>onFileError\<close> is
  invoked before \<^verbatim>\<open>onProgress\<close>, not after it.
\<close>

theorem failed_download_callbacks_counterexample:
  "fst (snd (prefetchAssets (always io_404) [assetB] empty_state)) =
     [OnFileStart ''/b.glb'' ''b'', Fetch ''/b.glb'',
      OnFileError ''/b.glb'' ''b'' (Error ''HTTP 404: Not Found''),
      OnProgress 1 1 ''b'']"
  by code_simp

lemma cache_entries_cache_put:
  "map_of (cache_entries n (cache_put n u r cs)) u = Some r"
  by (simp add: cache_entries_def cache_put_def update_conv')

lemma tryBlock_drift:
  assumes "io_try_throws io 0 (OnFileStart (asset_url a) (asset_name a)) = None"
    and "getAssetMeta (io_getMeta io) (asset_url a) (metaStore s) = Inr None"
    and "io_fetch io = Responded r" and "ok r"
    and "cache_open_error (io_cache io) = None"
    and "cache_put_error (io_cache io) = None"
    and "resp_body r = NullBody \<or> (\<exists>chunks e. resp_body r = Stream chunks (Some e))
         \<or> open_error (io_saveMeta io) \<noteq> None
         \<or> request_error (io_saveMeta io) \<noteq> None"
  shows "\<exists>s' evs c' e. tryBlock io c t a s = (s', evs, c', Inl e)
           \<and> map_of (cache_entries ''xr-cache-v1'' (cacheStorage s')) (asset_url a) = Some r
           \<and> metaStore s' = metaStore s"
  using assms
  by (auto simp: tryBlock_def Let_def open_and_put_def cache_entries_cache_put
                 saveAssetMeta_def openDB_def
           split: sum.splits option.splits prod.splits
           dest!: readBody_Inr)

text \<open>
  Claim C10. An iteration, with no crash and with callbacks that return, in which the
  lookup finds no record, the response has a success status and the Content Cache accepts
  the \<^verbatim>\<open>put\<close>, but then the body is \<^verbatim>\<open>null\<close>, or a read of the stream is rejected, or the
  metadata store rejects the write: the item is reported as failed, the cache
  \<^verbatim>\<open>xr-cache-v1\<close> holds the response under the identifier, and the metadata store has no
  record for it. The two stores drift apart by the failure of one item.
\<close>

theorem ordinary_failure_leaves_drift:
  assumes "i < length assetList"
    and "callbacks_return (env i)"
    and "getAssetMeta (io_getMeta (env i)) (asset_url (assetList ! i))
           (metaStore (stateBefore env assetList s i)) = Inr None"
    and "io_fetch (env i) = Responded r" and "ok r"
    and "cache_open_error (io_cache (env i)) = None"
    and "cache_put_error (io_cache (env i)) = None"
    and "resp_body r = NullBody \<or> (\<exists>chunks e. resp_body r = Stream chunks (Some e))
         \<or> open_error (io_saveMeta (env i)) \<noteq> None
         \<or> request_error (io_saveMeta (env i)) \<noteq> None"
  shows "(\<exists>entry. pushed (iteration env assetList s i) = Some entry \<and> is_failed entry)
         \<and> map_of (cache_entries ''xr-cache-v1'' (cacheStorage (fst (iteration env assetList s i))))
              (asset_url (assetList ! i)) = Some r
         \<and> store_get (asset_url (assetList ! i)) (metaStore (fst (iteration env assetList s i))) = None"
proof -
  from assms(2) have tr: "try_returns (env i)" and cr: "catch_returns (env i)"
    by (simp_all add: callbacks_return_def)
  have absent: "store_get (asset_url (assetList ! i)) (metaStore (stateBefore env assetList s i)) = None"
    using getAssetMeta_Inr [OF assms(3)] by simp
  from tr have start: "io_try_throws (env i) 0
                         (OnFileStart (asset_url (assetList ! i)) (asset_name (assetList ! i))) = None"
    by simp
  from tryBlock_drift [OF start assms(3-8), of "completedBefore env assetList s i" "length assetList"]
  obtain s' evs c' e where
    tb: "tryBlock (env i) (completedBefore env assetList s i) (length assetList) (assetList ! i)
           (stateBefore env assetList s i) = (s', evs, c', Inl e)"
    and cache: "map_of (cache_entries ''xr-cache-v1'' (cacheStorage s')) (asset_url (assetList ! i)) = Some r"
    and store: "metaStore s' = metaStore (stateBefore env assetList s i)"
    by blast
  from processAsset_caught [OF tb cr] cache store absent show ?thesis
    by (simp add: iteration_def pushed_def)
qed

text \<open>
  A download of four bytes whose metadata write is rejected by the store.
\<close>

theorem ordinary_failure_leaves_drift_witness:
  "io_fetch (always (io_save_fails (Some ''4'') [[1, 2], [3, 4]]) 0) =
     Responded (resp200 (Some ''4'') [[1, 2], [3, 4]])
   \<and> ok (resp200 (Some ''4'') [[1, 2], [3, 4]])
   \<and> snd (snd (prefetchAssets (always (io_save_fails (Some ''4'') [[1, 2], [3, 4]])) [assetA]
                 empty_state)) = Inr [Failed ''/a.glb'' ''a'' ''QuotaExceededError'']
   \<and> map_of (cache_entries ''xr-cache-v1''
        (cacheStorage (fst (iteration (always (io_save_fails (Some ''4'') [[1, 2], [3, 4]]))
                              [assetA] empty_state 0))))
        ''/a.glb'' = Some (resp200 (Some ''4'') [[1, 2], [3, 4]])
   \<and> store_get ''/a.glb''
        (metaStore (fst (iteration (always (io_save_fails (Some ''4'') [[1, 2], [3, 4]]))
                           [assetA] empty_state 0))) = None"
proof -
  let ?env = "always (io_save_fails (Some ''4'') [[1, 2], [3, 4]])"
  let ?r = "resp200 (Some ''4'') [[1, 2], [3, 4]]"
  have i: "(0::nat) < length [assetA]" by simp
  have quiet: "callbacks_return (?env 0)"
    by (simp add: callbacks_return_def try_returns_def catch_returns_def always_def
          io_save_fails_def)
  have miss: "getAssetMeta (io_getMeta (?env 0)) (asset_url ([assetA] ! 0))
           (metaStore (stateBefore ?env [assetA] empty_state 0)) = Inr None"
    by code_simp
  have resp: "io_fetch (?env 0) = Responded ?r"
    by (simp add: always_def io_save_fails_def)
  have okr: "ok ?r" by (simp add: ok_def resp200_def)
  have copen: "cache_open_error (io_cache (?env 0)) = None"
    by (simp add: always_def io_save_fails_def cache_ok_def)
  have cput: "cache_put_error (io_cache (?env 0)) = None"
    by (simp add: always_def io_save_fails_def cache_ok_def)
  have fails: "resp_body ?r = NullBody \<or> (\<exists>chunks e. resp_body ?r = Stream chunks (Some e))
         \<or> open_error (io_saveMeta (?env 0)) \<noteq> None
         \<or> request_error (io_saveMeta (?env 0)) \<noteq> None"
    by (simp add: always_def io_save_fails_def idb_down_def)
  have run: "snd (snd (prefetchAssets ?env [assetA] empty_state)) =
               Inr [Failed ''/a.glb'' ''a'' ''QuotaExceededError'']"
    by code_simp
  from ordinary_failure_leaves_drift [OF i quiet miss resp okr copen cput fails]
  show ?thesis using resp okr run by (simp add: assetA_def)
qed


subsection \<open>Failed items and the metadata store\<close>


lemma is_failed_not_downloaded: "is_failed r \<Longrightarrow> \<not> is_downloaded r"
  by (cases r) simp_all

lemma completion_returns_simps [simp]:
  "completion_returns io \<Longrightarrow> io_try_throws io k (OnProgress p t n) = None"
  "completion_returns io \<Longrightarrow> io_try_throws io k (OnFileComplete u n sz) = None"
  by (simp_all add: completion_returns_def)











subsection \<open>Running the pipeline again\<close>

text \<open>An item reported as downloaded had no record, and has one afterwards, of the size
  reported; \<^verbatim>\<open>onFileComplete\<close> was called once, with that size.\<close>

lemma tryBlock_downloaded:
  assumes "tryBlock io c t a s = (s', evs, c', Inr entry)" and "is_downloaded entry"
  shows "\<exists>(r :: response) chunks. resp_body r = Stream chunks None
           \<and> entry = Downloaded (asset_url a) (asset_name a) (delivered chunks)
           \<and> completions evs = [(asset_url a, asset_name a, delivered chunks)]
           \<and> store_get (asset_url a) (metaStore s) = None
           \<and> metaStore s' =
                   store_put \<lparr> meta_url = asset_url a, meta_size = delivered chunks,
                               meta_contentType = hdr_contentType r, meta_etag = hdr_etag r,
                               meta_lastModified = hdr_lastModified r,
                               meta_timestamp = io_now io \<rparr> (metaStore s)"
proof -
  from tryBlock_store [OF assms(1)] assms(2) obtain r :: response and chunks where
    body: "resp_body r = Stream chunks None"
    and absent: "store_get (asset_url a) (metaStore s) = None"
    and store: "metaStore s' =
                   store_put \<lparr> meta_url = asset_url a, meta_size = delivered chunks,
                               meta_contentType = hdr_contentType r, meta_etag = hdr_etag r,
                               meta_lastModified = hdr_lastModified r,
                               meta_timestamp = io_now io \<rparr> (metaStore s)"
    and entry: "entry = Downloaded (asset_url a) (asset_name a) (delivered chunks)"
    by auto
  have "completions evs = [(asset_url a, asset_name a, delivered chunks)]"
    using assms(1) entry
    by (auto simp: tryBlock_def reportComplete_def Let_def
             split: tryBlock_splits dest: readBody_completions)
  with body absent store entry show ?thesis by blast
qed

lemma processAsset_downloaded:
  assumes "processAsset io c t a s = (s', evs, Inr (c', entry))" and "is_downloaded entry"
  shows "store_get (asset_url a) (metaStore s) = None
         \<and> (\<exists>m. store_get (asset_url a) (metaStore s') = Some m
                \<and> entry = Downloaded (asset_url a) (asset_name a) (meta_size m)
                \<and> completions evs = [(asset_url a, asset_name a, meta_size m)])
         \<and> (\<forall>u. u \<noteq> asset_url a \<longrightarrow> store_get u (metaStore s') = store_get u (metaStore s))"
proof -
  obtain s1 evs1 c1 r where tb: "tryBlock io c t a s = (s1, evs1, c1, r)"
    by (metis prod_cases4)
  have "r = Inr entry \<and> s1 = s' \<and> evs1 = evs"
    using assms tb
    by (cases r) (auto simp: processAsset_def Let_def split: option.splits)
  with tb have "tryBlock io c t a s = (s', evs, c1, Inr entry)" by simp
  from tryBlock_downloaded [OF this assms(2)] show ?thesis
    by (auto simp: store_get_store_put)
qed

lemma prefetchLoop_all_downloaded:
  "prefetchLoop env i t c xs s = (s', evs, c', Inr rs) \<Longrightarrow>
   \<forall>r\<in>set rs. is_downloaded r \<Longrightarrow>
   (\<forall>u. store_get u (metaStore s) \<noteq> None \<longrightarrow>
         store_get u (metaStore s') = store_get u (metaStore s))
   \<and> (\<forall>a\<in>set xs. store_get (asset_url a) (metaStore s') \<noteq> None)
   \<and> rs = map (\<lambda>a. Downloaded (asset_url a) (asset_name a)
                     (meta_size (the (store_get (asset_url a) (metaStore s'))))) xs
   \<and> completions evs =
       map (\<lambda>a. (asset_url a, asset_name a,
                  meta_size (the (store_get (asset_url a) (metaStore s'))))) xs"
proof (induction xs arbitrary: i c s s' evs c' rs)
  case Nil
  then show ?case by simp
next
  case (Cons a as)
  obtain s1 evs1 r1 where step0: "processAsset (env i) c t a s = (s1, evs1, r1)"
    by (metis prod_cases3)
  with Cons.prems(1) obtain c1 entry where step: "processAsset (env i) c t a s = (s1, evs1, Inr (c1, entry))"
    by (cases r1) auto
  obtain s2 evs2 c2 r2 where rest0: "prefetchLoop env (Suc i) t c1 as s1 = (s2, evs2, c2, r2)"
    by (metis prod_cases4)
  with Cons.prems(1) step obtain rs2 where
    rest: "prefetchLoop env (Suc i) t c1 as s1 = (s2, evs2, c2, Inr rs2)"
    and eq: "s' = s2" "evs = evs1 @ evs2" "rs = entry # rs2"
    by (cases r2) auto
  from Cons.prems(2) eq(3) have dl: "is_downloaded entry" and dls: "\<forall>r\<in>set rs2. is_downloaded r"
    by simp_all
  from processAsset_downloaded [OF step dl] obtain m where
    absent: "store_get (asset_url a) (metaStore s) = None"
    and m: "store_get (asset_url a) (metaStore s1) = Some m"
    and entry: "entry = Downloaded (asset_url a) (asset_name a) (meta_size m)"
    and compl: "completions evs1 = [(asset_url a, asset_name a, meta_size m)]"
    and others: "\<forall>u. u \<noteq> asset_url a \<longrightarrow> store_get u (metaStore s1) = store_get u (metaStore s)"
    by blast
  from Cons.IH [OF rest dls] have
    keep: "\<forall>u. store_get u (metaStore s1) \<noteq> None \<longrightarrow>
               store_get u (metaStore s2) = store_get u (metaStore s1)"
    and present: "\<forall>a\<in>set as. store_get (asset_url a) (metaStore s2) \<noteq> None"
    and rs2: "rs2 = map (\<lambda>a. Downloaded (asset_url a) (asset_name a)
                     (meta_size (the (store_get (asset_url a) (metaStore s2))))) as"
    and compl2: "completions evs2 =
       map (\<lambda>a. (asset_url a, asset_name a,
                  meta_size (the (store_get (asset_url a) (metaStore s2))))) as"
    by simp_all
  from keep m have m2: "store_get (asset_url a) (metaStore s2) = Some m" by simp
  have survive: "\<forall>u. store_get u (metaStore s) \<noteq> None \<longrightarrow>
                    store_get u (metaStore s2) = store_get u (metaStore s)"
    using keep others absent by metis
  show ?case
    using survive present m2 entry rs2 compl compl2 eq by simp
qed

text \<open>A run in which every request has a record, every lookup is answered and the
  callbacks return.\<close>

lemma prefetchLoop_all_cached:
  "\<forall>a\<in>set xs. store_get (asset_url a) (metaStore s) \<noteq> None \<Longrightarrow>
   \<forall>k<length xs. lookup_answered (env (i + k)) \<and> try_returns (env (i + k)) \<Longrightarrow>
   \<exists>evs. prefetchLoop env i t c xs s =
           (s, evs, c + length xs,
            Inr (map (\<lambda>a. Cached (asset_url a) (asset_name a)
                               (meta_size (the (store_get (asset_url a) (metaStore s))))) xs))
         \<and> fetches evs = []
         \<and> completions evs =
             map (\<lambda>a. (asset_url a, asset_name a,
                        meta_size (the (store_get (asset_url a) (metaStore s))))) xs"
proof (induction xs arbitrary: i c)
  case Nil
  show ?case by simp
next
  case (Cons a as)
  from Cons.prems(1) obtain m where m: "store_get (asset_url a) (metaStore s) = Some m"
    by auto
  from Cons.prems(2) have here: "lookup_answered (env (i + 0)) \<and> try_returns (env (i + 0))"
    by blast
  then have found: "getAssetMeta (io_getMeta (env i)) (asset_url a) (metaStore s) = Inr (Some m)"
    using getAssetMeta_answered m by simp
  from here have tr: "try_returns (env i)" by simp
  have "\<forall>k<length as. lookup_answered (env (Suc i + k)) \<and> try_returns (env (Suc i + k))"
    using Cons.prems(2) by auto
  from Cons.IH [OF _ this, of "c + 1"] Cons.prems(1) obtain evs where
    rest: "prefetchLoop env (Suc i) t (c + 1) as s =
           (s, evs, c + 1 + length as,
            Inr (map (\<lambda>a. Cached (asset_url a) (asset_name a)
                               (meta_size (the (store_get (asset_url a) (metaStore s))))) as))"
    and nofetch: "fetches evs = []"
    and compl: "completions evs =
             map (\<lambda>a. (asset_url a, asset_name a,
                        meta_size (the (store_get (asset_url a) (metaStore s))))) as"
    by auto
  show ?case
    using processAsset_hit [OF tr found, of c t] rest nofetch compl m by simp
qed

text \<open>
  Claim C3. A first run that returns with every entry a downloaded one, followed by a
  second run on the same request list in the state the first one left, the metadata store
  answering its lookups and the callbacks returning: the second run issues no \<^verbatim>\<open>fetch\<close> at
  all; its entries are those of the first run turned into cached ones, each with the size
  of the first run; its \<^verbatim>\<open>onFileComplete\<close> calls carry the same identifiers, names and
  sizes as those of the first run; and it leaves both stores as they were.
\<close>

theorem idempotent_rerun:
  assumes "prefetchAssets env1 assetList s = (s1, evs1, Inr results1)"
    and "\<forall>r\<in>set results1. is_downloaded r"
    and "\<forall>i<length assetList. lookup_answered (env2 i)"
    and "\<forall>i<length assetList. try_returns (env2 i)"
  shows "\<exists>evs2. prefetchAssets env2 assetList s1 = (s1, evs2, Inr (map as_cached results1))
           \<and> fetches evs2 = []
           \<and> completions evs2 = completions evs1"
proof -
  from assms(1) obtain c1 where
    run1: "prefetchLoop env1 0 (length assetList) 0 assetList s = (s1, evs1, c1, Inr results1)"
    by (auto simp: prefetchAssets_def split: prod.splits)
  from prefetchLoop_all_downloaded [OF run1 assms(2)] have
    present: "\<forall>a\<in>set assetList. store_get (asset_url a) (metaStore s1) \<noteq> None"
    and rs1: "results1 = map (\<lambda>a. Downloaded (asset_url a) (asset_name a)
                     (meta_size (the (store_get (asset_url a) (metaStore s1))))) assetList"
    and compl1: "completions evs1 =
       map (\<lambda>a. (asset_url a, asset_name a,
                  meta_size (the (store_get (asset_url a) (metaStore s1))))) assetList"
    by simp_all
  from assms(3,4) have
    "\<forall>k<length assetList. lookup_answered (env2 (0 + k)) \<and> try_returns (env2 (0 + k))" by simp
  from prefetchLoop_all_cached [OF present this, of "length assetList" 0] obtain evs2 where
    run2: "prefetchLoop env2 0 (length assetList) 0 assetList s1 =
           (s1, evs2, 0 + length assetList,
            Inr (map (\<lambda>a. Cached (asset_url a) (asset_name a)
                               (meta_size (the (store_get (asset_url a) (metaStore s1))))) assetList))"
    and nofetch: "fetches evs2 = []"
    and compl2: "completions evs2 =
             map (\<lambda>a. (asset_url a, asset_name a,
                        meta_size (the (store_get (asset_url a) (metaStore s1))))) assetList"
    by blast
  have "map as_cached results1 =
          map (\<lambda>a. Cached (asset_url a) (asset_name a)
                               (meta_size (the (store_get (asset_url a) (metaStore s1))))) assetList"
    by (subst rs1) simp
  with run2 nofetch compl1 compl2 show ?thesis
    by (simp add: prefetchAssets_def)
qed

text \<open>
  Two requests are downloaded; in the second run the network is down and is not asked.
\<close>

theorem idempotent_rerun_witness:
  "snd (snd (prefetchAssets (always (io_good (Some ''4'') [[1, 2], [3, 4]])) [assetA, assetC]
               empty_state)) =
     Inr [Downloaded ''/a.glb'' ''a'' 4, Downloaded ''/c.glb'' ''c'' 4]
   \<and> lookup_answered io_offline
   \<and> snd (snd (prefetchAssets (always io_offline) [assetA, assetC]
                 (fst (prefetchAssets (always (io_good (Some ''4'') [[1, 2], [3, 4]]))
                         [assetA, assetC] empty_state)))) =
       Inr [Cached ''/a.glb'' ''a'' 4, Cached ''/c.glb'' ''c'' 4]
   \<and> fetches (fst (snd (prefetchAssets (always io_offline) [assetA, assetC]
                 (fst (prefetchAssets (always (io_good (Some ''4'') [[1, 2], [3, 4]]))
                         [assetA, assetC] empty_state))))) = []"
proof -
  let ?env1 = "always (io_good (Some ''4'') [[1, 2], [3, 4]])"
  let ?run1 = "prefetchAssets ?env1 [assetA, assetC] empty_state"
  let ?rs = "[Downloaded ''/a.glb'' ''a'' 4, Downloaded ''/c.glb'' ''c'' 4]"
  have rs: "snd (snd ?run1) = Inr ?rs"
    by code_simp
  then have run: "?run1 = (fst ?run1, fst (snd ?run1), Inr ?rs)"
    by (metis prod.collapse)
  have dl: "\<forall>r\<in>set ?rs. is_downloaded r"
    by simp
  have answered: "lookup_answered io_offline"
    by (simp add: lookup_answered_def io_offline_def idb_ok_def)
  then have all: "\<forall>i<length [assetA, assetC]. lookup_answered (always io_offline i)"
    by (simp add: always_def)
  have quiet: "\<forall>i<length [assetA, assetC]. try_returns (always io_offline i)"
    by (simp add: always_def try_returns_def io_offline_def)
  from idempotent_rerun [OF run dl all quiet] obtain evs2 where
    "prefetchAssets (always io_offline) [assetA, assetC] (fst ?run1) =
       (fst ?run1, evs2, Inr (map as_cached ?rs))"
    and "fetches evs2 = []"
    by blast
  then show ?thesis using rs answered by simp
qed


subsection \<open>Progress values\<close>













subsection \<open>Clearing all caches\<close>

lemma map_filter_Nil_iff:
  "List.map_filter f xs = [] \<longleftrightarrow> (\<forall>x\<in>set xs. f x = None)"
  by (induction xs) (auto simp: List.map_filter_simps split: option.splits)

lemma deleteCaches_keys_fail:
  "keys_error io = Some e \<Longrightarrow> deleteCaches io cs = (cs, Some e)"
  by (simp add: deleteCaches_def)

lemma deleteCaches_delete_fails:
  assumes "keys_error io = None"
    and "\<exists>n\<in>set (map fst cs). startsWith n ''xr-cache-'' \<and> delete_error io n \<noteq> None"
  shows "\<exists>cs2 e. deleteCaches io cs = (cs2, Some e)"
proof -
  from assms(2) have
    "List.map_filter (delete_error io)
       (filter (\<lambda>n. startsWith n ''xr-cache-'') (map fst cs)) \<noteq> []"
    unfolding map_filter_Nil_iff by auto
  with assms(1) show ?thesis
    by (auto simp: deleteCaches_def Let_def split: list.splits)
qed

lemma deleteCaches_done:
  assumes "deleteCaches io cs = (cs', None)"
  shows "\<forall>n\<in>set (map fst cs'). \<not> startsWith n ''xr-cache-''"
proof -
  from assms have keys: "keys_error io = None"
    by (auto simp: deleteCaches_def split: option.splits)
  with assms have
    none: "List.map_filter (delete_error io)
             (filter (\<lambda>n. startsWith n ''xr-cache-'') (map fst cs)) = []"
    and cs': "cs' = filter (\<lambda>(n, c). \<not> (startsWith n ''xr-cache-'' \<and> delete_error io n = None)) cs"
    by (auto simp: deleteCaches_def Let_def split: list.splits)
  show ?thesis
  proof
    fix n assume "n \<in> set (map fst cs')"
    then obtain c where in_cs: "(n, c) \<in> set cs"
      and kept: "\<not> (startsWith n ''xr-cache-'' \<and> delete_error io n = None)"
      unfolding cs' by auto
    show "\<not> startsWith n ''xr-cache-''"
    proof
      assume p: "startsWith n ''xr-cache-''"
      with in_cs have "n \<in> set (filter (\<lambda>n. startsWith n ''xr-cache-'') (map fst cs))"
        by force
      with none kept p show False unfolding map_filter_Nil_iff by blast
    qed
  qed
qed

lemma deleteCaches_all_ok:
  assumes "keys_error io = None"
    and "\<forall>n\<in>set (map fst cs). startsWith n ''xr-cache-'' \<longrightarrow> delete_error io n = None"
  shows "\<exists>cs2. deleteCaches io cs = (cs2, None)"
proof -
  from assms(2) have
    "List.map_filter (delete_error io)
       (filter (\<lambda>n. startsWith n ''xr-cache-'') (map fst cs)) = []"
    unfolding map_filter_Nil_iff by auto
  with assms(1) show ?thesis by (simp add: deleteCaches_def Let_def)
qed

text \<open>After the worker's step, if it does not throw or hang: the page's own steps.\<close>

lemma clearAllCaches_page:
  assumes "cl_worker io = NoController \<or> cl_worker io = Handles wio"
  shows "clearAllCaches io s =
           (let cs1 = (case cl_worker io of
                         Handles w \<Rightarrow> fst (handleClearCache w (cacheStorage s))
                       | _ \<Rightarrow> cacheStorage s)
            in case deleteCaches (cl_page io) cs1 of
                 (cs2, Some e) \<Rightarrow> Some (s\<lparr>cacheStorage := cs2\<rparr>, False)
               | (cs2, None) \<Rightarrow>
                   (case clearAssetMeta (cl_meta io) (metaStore s) of
                      Inl e \<Rightarrow> Some (s\<lparr>cacheStorage := cs2\<rparr>, False)
                    | Inr store \<Rightarrow> Some (\<lparr>metaStore = store, cacheStorage = cs2\<rparr>, True)))"
  using assms by (auto simp: clearAllCaches_def Let_def)

text \<open>
  Claim C7, as amended. When \<^verbatim>\<open>postMessage\<close> throws, \<^verbatim>\<open>clearAllCaches\<close> returns \<^verbatim>\<open>false\<close> at
  once and both stores are as they were. When there is no controller, or the service worker
  handles the message, what the worker answers is dropped, whether its own clearing failed
  or not, and \<open>cs1\<close> is the Cache Storage it leaves; then: if \<^verbatim>\<open>caches.keys()\<close> is rejected,
  \<^verbatim>\<open>false\<close> is returned with \<open>cs1\<close> and the metadata store untouched; if the deletion of a
  cache named \<^verbatim>\<open>xr-cache-...\<close> is rejected, \<^verbatim>\<open>false\<close> is returned and the metadata store is
  untouched; if the deletions succeed and the clearing of the metadata store is rejected,
  \<^verbatim>\<open>false\<close> is returned, no cache named \<^verbatim>\<open>xr-cache-...\<close> is left and the metadata store is
  untouched; if all succeed, \<^verbatim>\<open>true\<close> is returned, with an empty metadata store and no
  cache named \<^verbatim>\<open>xr-cache-...\<close> left. Whenever \<^verbatim>\<open>false\<close> is returned the metadata store is as
  it was; whenever \<^verbatim>\<open>true\<close> is returned it is empty. There is no third answer for a partial
  failure.
\<close>

theorem clearAllCaches_outcomes:
  "(cl_worker io = PostMessageThrows e \<longrightarrow> clearAllCaches io s = Some (s, False))
   \<and> (cl_worker io = NoController \<or> cl_worker io = Handles wio \<longrightarrow>
        (let cs1 = (case cl_worker io of
                      Handles w \<Rightarrow> fst (handleClearCache w (cacheStorage s))
                    | _ \<Rightarrow> cacheStorage s)
         in (keys_error (cl_page io) \<noteq> None \<longrightarrow>
               clearAllCaches io s = Some (s\<lparr>cacheStorage := cs1\<rparr>, False))
            \<and> (keys_error (cl_page io) = None
                 \<and> (\<exists>n\<in>set (map fst cs1).
                       startsWith n ''xr-cache-'' \<and> delete_error (cl_page io) n \<noteq> None) \<longrightarrow>
                 (\<exists>cs2. clearAllCaches io s = Some (s\<lparr>cacheStorage := cs2\<rparr>, False)))
            \<and> (keys_error (cl_page io) = None
                 \<and> (\<forall>n\<in>set (map fst cs1).
                       startsWith n ''xr-cache-'' \<longrightarrow> delete_error (cl_page io) n = None)
                 \<and> (open_error (cl_meta io) \<noteq> None \<or> request_error (cl_meta io) \<noteq> None) \<longrightarrow>
                 (\<exists>cs2. clearAllCaches io s = Some (s\<lparr>cacheStorage := cs2\<rparr>, False)
                        \<and> (\<forall>n\<in>set (map fst cs2). \<not> startsWith n ''xr-cache-'')))
            \<and> (keys_error (cl_page io) = None
                 \<and> (\<forall>n\<in>set (map fst cs1).
                       startsWith n ''xr-cache-'' \<longrightarrow> delete_error (cl_page io) n = None)
                 \<and> open_error (cl_meta io) = None \<and> request_error (cl_meta io) = None \<longrightarrow>
                 (\<exists>cs2. clearAllCaches io s = Some (\<lparr>metaStore = [], cacheStorage = cs2\<rparr>, True)
                        \<and> (\<forall>n\<in>set (map fst cs2). \<not> startsWith n ''xr-cache-'')))))
   \<and> (clearAllCaches io s = Some (s', False) \<longrightarrow> metaStore s' = metaStore s)
   \<and> (clearAllCaches io s = Some (s', True) \<longrightarrow>
         metaStore s' = [] \<and> (\<forall>n\<in>set (map fst (cacheStorage s')). \<not> startsWith n ''xr-cache-''))"
proof (intro conjI impI)
  assume "cl_worker io = PostMessageThrows e"
  then show "clearAllCaches io s = Some (s, False)"
    by (simp add: clearAllCaches_def)
next
  assume w: "cl_worker io = NoController \<or> cl_worker io = Handles wio"
  let ?cs1 = "case cl_worker io of
                Handles w \<Rightarrow> fst (handleClearCache w (cacheStorage s))
              | _ \<Rightarrow> cacheStorage s"
  note page = clearAllCaches_page [OF w, of s, unfolded Let_def]
  have keys: "clearAllCaches io s = Some (s\<lparr>cacheStorage := ?cs1\<rparr>, False)"
    if "keys_error (cl_page io) \<noteq> None"
  proof -
    from that obtain e' where "keys_error (cl_page io) = Some e'" by auto
    from deleteCaches_keys_fail [OF this] show ?thesis unfolding page by simp
  qed
  have del: "\<exists>cs2. clearAllCaches io s = Some (s\<lparr>cacheStorage := cs2\<rparr>, False)"
    if "keys_error (cl_page io) = None
        \<and> (\<exists>n\<in>set (map fst ?cs1). startsWith n ''xr-cache-'' \<and> delete_error (cl_page io) n \<noteq> None)"
  proof -
    from that deleteCaches_delete_fails [of "cl_page io" ?cs1] obtain cs2 e' where
      "deleteCaches (cl_page io) ?cs1 = (cs2, Some e')" by blast
    then have "clearAllCaches io s = Some (s\<lparr>cacheStorage := cs2\<rparr>, False)"
      unfolding page by simp
    then show ?thesis by blast
  qed
  have meta: "\<exists>cs2. clearAllCaches io s = Some (s\<lparr>cacheStorage := cs2\<rparr>, False)
                        \<and> (\<forall>n\<in>set (map fst cs2). \<not> startsWith n ''xr-cache-'')"
    if h: "keys_error (cl_page io) = None
        \<and> (\<forall>n\<in>set (map fst ?cs1). startsWith n ''xr-cache-'' \<longrightarrow> delete_error (cl_page io) n = None)
        \<and> (open_error (cl_meta io) \<noteq> None \<or> request_error (cl_meta io) \<noteq> None)"
  proof -
    from h deleteCaches_all_ok [of "cl_page io" ?cs1] obtain cs2 where
      d: "deleteCaches (cl_page io) ?cs1 = (cs2, None)" by blast
    from h have "\<exists>e'. clearAssetMeta (cl_meta io) (metaStore s) = Inl e'"
      by (auto simp: clearAssetMeta_def openDB_def split: option.splits)
    with d deleteCaches_done [OF d] show ?thesis unfolding page by auto
  qed
  have ok: "\<exists>cs2. clearAllCaches io s = Some (\<lparr>metaStore = [], cacheStorage = cs2\<rparr>, True)
                        \<and> (\<forall>n\<in>set (map fst cs2). \<not> startsWith n ''xr-cache-'')"
    if h: "keys_error (cl_page io) = None
        \<and> (\<forall>n\<in>set (map fst ?cs1). startsWith n ''xr-cache-'' \<longrightarrow> delete_error (cl_page io) n = None)
        \<and> open_error (cl_meta io) = None \<and> request_error (cl_meta io) = None"
  proof -
    from h deleteCaches_all_ok [of "cl_page io" ?cs1] obtain cs2 where
      d: "deleteCaches (cl_page io) ?cs1 = (cs2, None)" by blast
    from h have "clearAssetMeta (cl_meta io) (metaStore s) = Inr []"
      by (simp add: clearAssetMeta_def openDB_def)
    with d deleteCaches_done [OF d] show ?thesis unfolding page by auto
  qed
  from keys del meta ok show
    "let cs1 = ?cs1
     in (keys_error (cl_page io) \<noteq> None \<longrightarrow>
               clearAllCaches io s = Some (s\<lparr>cacheStorage := cs1\<rparr>, False))
            \<and> (keys_error (cl_page io) = None
                 \<and> (\<exists>n\<in>set (map fst cs1).
                       startsWith n ''xr-cache-'' \<and> delete_error (cl_page io) n \<noteq> None) \<longrightarrow>
                 (\<exists>cs2. clearAllCaches io s = Some (s\<lparr>cacheStorage := cs2\<rparr>, False)))
            \<and> (keys_error (cl_page io) = None
                 \<and> (\<forall>n\<in>set (map fst cs1).
                       startsWith n ''xr-cache-'' \<longrightarrow> delete_error (cl_page io) n = None)
                 \<and> (open_error (cl_meta io) \<noteq> None \<or> request_error (cl_meta io) \<noteq> None) \<longrightarrow>
                 (\<exists>cs2. clearAllCaches io s = Some (s\<lparr>cacheStorage := cs2\<rparr>, False)
                        \<and> (\<forall>n\<in>set (map fst cs2). \<not> startsWith n ''xr-cache-'')))
            \<and> (keys_error (cl_page io) = None
                 \<and> (\<forall>n\<in>set (map fst cs1).
                       startsWith n ''xr-cache-'' \<longrightarrow> delete_error (cl_page io) n = None)
                 \<and> open_error (cl_meta io) = None \<and> request_error (cl_meta io) = None \<longrightarrow>
                 (\<exists>cs2. clearAllCaches io s = Some (\<lparr>metaStore = [], cacheStorage = cs2\<rparr>, True)
                        \<and> (\<forall>n\<in>set (map fst cs2). \<not> startsWith n ''xr-cache-'')))"
    unfolding Let_def by blast
next
  assume "clearAllCaches io s = Some (s', False)"
  then show "metaStore s' = metaStore s"
    by (auto simp: clearAllCaches_def
             split: worker.splits option.splits sum.splits prod.splits)
next
  assume t: "clearAllCaches io s = Some (s', True)"
  then show "metaStore s' = []"
    by (auto simp: clearAllCaches_def clearAssetMeta_def openDB_def
             split: worker.splits option.splits sum.splits prod.splits)
next
  assume t: "clearAllCaches io s = Some (s', True)"
  then obtain cs1 where "deleteCaches (cl_page io) cs1 = (cacheStorage s', None)"
    by (auto simp: clearAllCaches_def
             split: worker.splits option.splits sum.splits prod.splits)
  from deleteCaches_done [OF this]
  show "\<forall>n\<in>set (map fst (cacheStorage s')). \<not> startsWith n ''xr-cache-''" .
qed


text \<open>
  The worker cannot enumerate the caches and answers \<^verbatim>\<open>{ok: false}\<close>; the page clears both
  stores and returns \<^verbatim>\<open>true\<close>. With no controller and a metadata store that rejects the
  clearing, the caches are deleted and \<^verbatim>\<open>false\<close> is returned.
\<close>

theorem clearAllCaches_outcomes_witness:
  "handleClearCache delete_down (cacheStorage full_state) = (cacheStorage full_state, False)
   \<and> clearAllCaches clear_worker_fails full_state =
       Some (\<lparr> metaStore = [], cacheStorage = [(''fonts'', [])] \<rparr>, True)
   \<and> clearAllCaches clear_meta_fails full_state =
       Some (\<lparr> metaStore = [recordA], cacheStorage = [(''fonts'', [])] \<rparr>, False)"
proof -
  have reply: "handleClearCache delete_down (cacheStorage full_state) = (cacheStorage full_state, False)"
    by (simp add: handleClearCache_def deleteCaches_def delete_down_def)
  have worker: "cl_worker clear_worker_fails = NoController
                \<or> cl_worker clear_worker_fails = Handles delete_down"
    by (simp add: clear_worker_fails_def)
  have cs1: "(case cl_worker clear_worker_fails of
                Handles w \<Rightarrow> fst (handleClearCache w (cacheStorage full_state))
              | _ \<Rightarrow> cacheStorage full_state) = cacheStorage full_state"
    by (simp add: clear_worker_fails_def reply)
  have page: "keys_error (cl_page clear_worker_fails) = None
      \<and> (\<forall>n\<in>set (map fst (cacheStorage full_state)).
            startsWith n ''xr-cache-'' \<longrightarrow> delete_error (cl_page clear_worker_fails) n = None)
      \<and> open_error (cl_meta clear_worker_fails) = None
      \<and> request_error (cl_meta clear_worker_fails) = None"
    by (simp add: clear_worker_fails_def delete_ok_def idb_ok_def)
  note cases1 = clearAllCaches_outcomes
    [of clear_worker_fails "Error []" full_state delete_down full_state,
     THEN conjunct2, THEN conjunct1, THEN mp, OF worker, unfolded Let_def cs1]
  from cases1 page obtain cs2 where
    cleared: "clearAllCaches clear_worker_fails full_state =
                Some (\<lparr> metaStore = [], cacheStorage = cs2 \<rparr>, True)"
    by blast
  have run: "clearAllCaches clear_worker_fails full_state =
       Some (\<lparr> metaStore = [], cacheStorage = [(''fonts'', [])] \<rparr>, True)"
    by (simp add: clearAllCaches_def clear_worker_fails_def handleClearCache_def deleteCaches_def
          delete_down_def delete_ok_def idb_ok_def clearAssetMeta_def openDB_def full_state_def
          startsWith_def List.map_filter_simps)
  have run2: "clearAllCaches clear_meta_fails full_state =
       Some (\<lparr> metaStore = [recordA], cacheStorage = [(''fonts'', [])] \<rparr>, False)"
    by (simp add: clearAllCaches_def clear_meta_fails_def deleteCaches_def
          delete_ok_def idb_down_def clearAssetMeta_def openDB_def full_state_def
          startsWith_def List.map_filter_simps)
  from cleared reply run run2 show ?thesis by simp
qed

text \<open>
  Claim C7 as stated fails. With a worker whose clearing fails, the operation does go on,
  but it reports plain success, not a partial failure; and when the failure is a throw of
  \<^verbatim>\<open>postMessage\<close>, the operation stops there and returns \<^verbatim>\<open>false\<close> with the Content Cache
  and the metadata store untouched.
\<close>

theorem clearAllCaches_counterexample:
  "handleClearCache delete_down (cacheStorage full_state) = (cacheStorage full_state, False)
   \<and> clearAllCaches clear_worker_fails full_state =
       Some (\<lparr> metaStore = [], cacheStorage = [(''fonts'', [])] \<rparr>, True)
   \<and> clearAllCaches clear_post_throws full_state = Some (full_state, False)"
  by (simp add: clearAllCaches_def clear_worker_fails_def clear_post_throws_def
        handleClearCache_def deleteCaches_def
        delete_down_def delete_ok_def idb_ok_def clearAssetMeta_def openDB_def full_state_def
        startsWith_def List.map_filter_simps)

end
